theory Spec2Isabelle
  imports Complex_Main "HOL-Library.Word"
begin

section \<open>Values shared by the model\<close>

text \<open>
  JavaScript numbers are modelled as \<open>real\<close>: the code below only stores, copies and
  tests them for truthiness, it never computes with them. An optional property is an
  \<open>option\<close>; \<open>None\<close> stands for an absent, \<^verbatim>\<open>undefined\<close> or \<^verbatim>\<open>null\<close> value.
  A user supplied function (\<^verbatim>\<open>complete\<close>, \<^verbatim>\<open>loaded\<close>) is an opaque handle; calling
  it is recorded in the trace of the state and has no other effect.
\<close>

type_synonym callback = nat

type_synonym ArrayBuffer = "8 word list"

datatype AudioBuffer = AudioBuffer (duration: real)

datatype js_error =
    ConfigError     \<comment> \<open>\<^verbatim>\<open>new Error("sound.src or sound.srcBuffer must be set")\<close>\<close>
  | FileNotFound string  \<comment> \<open>\<^verbatim>\<open>new Error(`File not found ${this.src}`)\<close>\<close>
  | DecodeError     \<comment> \<open>\<^verbatim>\<open>new Error('Unable to decode file')\<close>\<close>
  | TypeError       \<comment> \<open>property read on \<^verbatim>\<open>undefined\<close>\<close>

definition truthy_string :: "string option \<Rightarrow> bool" where
  "truthy_string v = (case v of None \<Rightarrow> False | Some x \<Rightarrow> x \<noteq> [])"

definition truthy_number :: "real option \<Rightarrow> bool" where
  "truthy_number v = (case v of None \<Rightarrow> False | Some x \<Rightarrow> x \<noteq> 0)"

definition truthy_bool :: "bool option \<Rightarrow> bool" where
  "truthy_bool v = (case v of None \<Rightarrow> False | Some x \<Rightarrow> x)"

section \<open>SoundContext (src/unnamed/part_002)\<close>

datatype ctx_state = Running | Suspended | Closed

record SoundContext =
  ctx_state :: ctx_state        \<comment> \<open>\<^verbatim>\<open>_ctx.state\<close>\<close>
  ctx_gain :: real              \<comment> \<open>\<^verbatim>\<open>_gainNode.gain.value\<close>\<close>
  ctx_muted :: bool             \<comment> \<open>\<^verbatim>\<open>_muted\<close>\<close>
  ctx_volume :: real            \<comment> \<open>\<^verbatim>\<open>_volume\<close>\<close>
  ctx_paused :: bool            \<comment> \<open>\<^verbatim>\<open>_paused\<close>\<close>

text \<open>
  The cell \<open>ctx_gain\<close> holds the number last assigned to the gain parameter; what the
  browser's audio graph does with it is outside the repository.
\<close>

definition get_muted :: "SoundContext \<Rightarrow> bool" where
  "get_muted c = ctx_muted c"

definition set_muted :: "bool \<Rightarrow> SoundContext \<Rightarrow> SoundContext" where
  "set_muted m c = c\<lparr>ctx_muted := m, ctx_gain := (if m then 0 else ctx_volume c)\<rparr>"

definition set_context_volume :: "real \<Rightarrow> SoundContext \<Rightarrow> SoundContext" where
  "set_context_volume v c =
     (let c1 = c\<lparr>ctx_volume := v\<rparr>
      in if \<not> ctx_muted c1 then c1\<lparr>ctx_gain := ctx_volume c1\<rparr> else c1)"

definition get_context_volume :: "SoundContext \<Rightarrow> real" where
  "get_context_volume c = ctx_volume c"

definition set_paused :: "bool \<Rightarrow> SoundContext \<Rightarrow> SoundContext" where
  "set_paused p c =
     (let c1 = (if p \<and> ctx_state c = Running then c\<lparr>ctx_state := Suspended\<rparr>
                else if \<not> p \<and> ctx_state c = Suspended then c\<lparr>ctx_state := Running\<rparr>
                else c)
      in c1\<lparr>ctx_paused := p\<rparr>)"

definition toggleMute :: "SoundContext \<Rightarrow> bool \<times> SoundContext" where
  "toggleMute c = (let c1 = set_muted (\<not> get_muted c) c in (ctx_muted c1, c1))"

text \<open>
  The constructor assigns \<^verbatim>\<open>volume = 1\<close>, \<^verbatim>\<open>muted = false\<close>, \<^verbatim>\<open>paused = false\<close> through
  the setters, on an object whose private fields are still \<^verbatim>\<open>undefined\<close> (falsy).
\<close>

definition SoundContext_new :: SoundContext where
  "SoundContext_new =
     set_paused False (set_muted False (set_context_volume 1
       \<lparr>ctx_state = Running, ctx_gain = 1, ctx_muted = False, ctx_volume = 0,
        ctx_paused = False\<rparr>))"

section \<open>Sound (src/src/Sound.ts)\<close>

subsection \<open>Options\<close>

record SoundSpriteData =
  start :: real
  end_time :: real
  speed :: "real option"

record Options =
  o_autoPlay :: "bool option"
  o_singleInstance :: "bool option"
  o_volume :: "real option"
  o_speed :: "real option"
  o_complete :: "callback option"
  o_loaded :: "callback option"
  o_preload :: "bool option"
  o_loop :: "bool option"
  o_src :: "string option"
  o_srcBuffer :: "ArrayBuffer option"
  o_useXHR :: "bool option"
  o_sprites :: "(string \<times> SoundSpriteData) list option"

record PlayOptions =
  po_start :: "real option"
  po_end :: "real option"
  po_speed :: "real option"
  po_loop :: "bool option"
  po_fadeIn :: "real option"
  po_fadeOut :: "real option"
  po_sprite :: "string option"
  po_complete :: "callback option"
  po_loaded :: "callback option"
  po_offset :: "real option"   \<comment> \<open>deprecated, read through \<^verbatim>\<open>(options as any).offset\<close>\<close>

definition no_options :: Options where
  "no_options = \<lparr>o_autoPlay = None, o_singleInstance = None, o_volume = None,
     o_speed = None, o_complete = None, o_loaded = None, o_preload = None, o_loop = None,
     o_src = None, o_srcBuffer = None, o_useXHR = None, o_sprites = None\<rparr>"

definition no_play_options :: PlayOptions where
  "no_play_options = \<lparr>po_start = None, po_end = None, po_speed = None, po_loop = None,
     po_fadeIn = None, po_fadeOut = None, po_sprite = None, po_complete = None,
     po_loaded = None, po_offset = None\<rparr>"

subsection \<open>Collaborators that are not under src/\<close>

text \<open>
  Modelled from the spec: \<^verbatim>\<open>SoundSprite\<close> (SoundSprite.ts is not under src/). The spec
  describes it as an immutable named time window with \<open>start\<close>, \<open>end\<close> and an optional
  speed override, created from the sprite configuration \<open>{start, end, speed?}\<close>.
\<close>

type_synonym SoundSprite = SoundSpriteData

text \<open>
  Modelled from the spec: the constructor of \<^verbatim>\<open>SoundSprite\<close> (not under src/); the sprite
  holds the start, end and optional speed of its configuration.
\<close>

definition SoundSprite_new :: "SoundSpriteData \<Rightarrow> SoundSprite" where
  "SoundSprite_new data = data"

text \<open>
  Modelled from the spec: \<^verbatim>\<open>SoundInstance\<close> (SoundInstance.ts is not under src/). The
  spec gives its life cycle: Created, Playing, Paused, Completed or Stopped, Destroyed.
  The record keeps the state, the arguments of \<open>play\<close>, and the \<^verbatim>\<open>complete\<close> callback
  captured by the end listener that \<^verbatim>\<open>Sound.play\<close> registers. Every call of
  \<^verbatim>\<open>SoundInstance.create\<close> gives a new instance.
\<close>

datatype lifecycle = Created | Playing | Paused | Completed | Stopped | Destroyed

record SoundInstance =
  si_state :: lifecycle
  si_start :: "real option"
  si_end :: "real option"
  si_speed :: "real option"
  si_loop :: "bool option"
  si_fadeIn :: "real option"
  si_fadeOut :: "real option"
  si_complete :: "callback option"

text \<open>
  Modelled from the spec: the states after which an instance is invalid (\<^verbatim>\<open>SoundInstance\<close>
  is not under src/).
\<close>

definition terminal :: "lifecycle \<Rightarrow> bool" where
  "terminal l = (l = Completed \<or> l = Stopped \<or> l = Destroyed)"

text \<open>
  Modelled from the spec: \<^verbatim>\<open>SoundInstance.create\<close> (not under src/) gives a fresh instance
  in state Created.
\<close>

definition SoundInstance_create :: SoundInstance where
  "SoundInstance_create = \<lparr>si_state = Created, si_start = None, si_end = None,
     si_speed = None, si_loop = None, si_fadeIn = None, si_fadeOut = None,
     si_complete = None\<rparr>"

text \<open>
  Modelled from the spec: \<^verbatim>\<open>SoundInstance.play(start, end, speed, loop, fadeIn, fadeOut)\<close>
  (not under src/) schedules the given window and takes the instance to Playing.
\<close>

definition SoundInstance_play ::
  "real option \<Rightarrow> real option \<Rightarrow> real option \<Rightarrow> bool option \<Rightarrow> real option \<Rightarrow> real option
     \<Rightarrow> SoundInstance \<Rightarrow> SoundInstance" where
  "SoundInstance_play st en sp lp fi fo i =
     i\<lparr>si_state := Playing, si_start := st, si_end := en, si_speed := sp, si_loop := lp,
       si_fadeIn := fi, si_fadeOut := fo\<rparr>"

text \<open>
  Modelled from the spec: the \<^verbatim>\<open>paused\<close> setter of \<^verbatim>\<open>SoundInstance\<close> (not under src/)
  suspends a playing instance and resumes a paused one, without resetting it.
\<close>

definition SoundInstance_set_paused :: "bool \<Rightarrow> SoundInstance \<Rightarrow> SoundInstance" where
  "SoundInstance_set_paused p i =
     (if p \<and> si_state i = Playing then i\<lparr>si_state := Paused\<rparr>
      else if \<not> p \<and> si_state i = Paused then i\<lparr>si_state := Playing\<rparr>
      else i)"

text \<open>
  Modelled from the spec: \<^verbatim>\<open>SoundInstance.destroy\<close> (not under src/) takes the instance to
  its terminal state Destroyed; it fires no event.
\<close>

definition SoundInstance_destroy :: "SoundInstance \<Rightarrow> SoundInstance" where
  "SoundInstance_destroy i = i\<lparr>si_state := Destroyed\<rparr>"

subsection \<open>State\<close>

datatype play_result = Instance nat | Deferred nat

datatype loaded_callback =
    UserLoaded callback
      \<comment> \<open>the \<^verbatim>\<open>loaded\<close> function of the constructor options\<close>
  | PlayDeferred nat "callback option"
      \<comment> \<open>the closure built by \<^verbatim>\<open>play\<close>: the promise it settles, and \<^verbatim>\<open>options.loaded\<close>\<close>

datatype request =
    XhrGet string "loaded_callback option"
  | FsReadFile string "loaded_callback option"
  | DecodeAudio ArrayBuffer "loaded_callback option"

datatype promise = Pending | Resolved "play_result option" | Rejected js_error

datatype event =
    LoadedCalled callback "js_error option" "play_result option"
  | CompleteCalled callback
  | ConsoleError string
  | ConsoleAssert string
  | Uncaught js_error

text \<open>
  One sound together with the part of its environment that it acts on: the instances it
  has created (\<open>pool\<close>, an instance is named by its index), the asynchronous requests it
  has issued and that have not completed yet, the promises it has returned, and the trace
  of callbacks and console output. \<open>block\<close> is not declared by the class: the tests and
  the demo page (src/unnamed/part_000, part_001) assign it from outside as a plain
  property. \<open>destroy\<close> is not modelled, so \<^verbatim>\<open>_instances\<close>, \<^verbatim>\<open>_source\<close> and \<^verbatim>\<open>_context\<close>
  are never \<^verbatim>\<open>null\<close>.
\<close>

record Sound =
  isLoaded :: bool
  isPlaying :: bool
  autoPlay :: bool
  singleInstance :: bool
  preload :: bool
  src :: "string option"
  srcBuffer :: "ArrayBuffer option"
  useXHR :: bool
  block :: bool
  autoPlayOptions :: "PlayOptions option"   \<comment> \<open>\<^verbatim>\<open>_autoPlayOptions\<close>\<close>
  volume :: real                            \<comment> \<open>\<^verbatim>\<open>_volume\<close>\<close>
  sprites :: "string \<rightharpoonup> SoundSprite"        \<comment> \<open>\<^verbatim>\<open>_sprites\<close>\<close>
  nodes_gain :: real                        \<comment> \<open>\<^verbatim>\<open>_nodes.gain.gain.value\<close>\<close>
  source_loop :: bool                       \<comment> \<open>\<^verbatim>\<open>_source.loop\<close>\<close>
  buffer :: "AudioBuffer option"            \<comment> \<open>\<^verbatim>\<open>_source.buffer\<close>\<close>
  playbackRate :: real                      \<comment> \<open>\<^verbatim>\<open>_source.playbackRate.value\<close>\<close>
  instances :: "nat list"                   \<comment> \<open>\<^verbatim>\<open>_instances\<close>\<close>
  pool :: "SoundInstance list"
  requests :: "request list"
  promises :: "promise list"
  trace :: "event list"

definition isPlayable :: "Sound \<Rightarrow> bool" where
  "isPlayable s = (isLoaded s \<and> buffer s \<noteq> None)"

definition get_volume :: "Sound \<Rightarrow> real" where
  "get_volume s = volume s"

definition set_volume :: "real \<Rightarrow> Sound \<Rightarrow> Sound" where
  "set_volume v s = s\<lparr>nodes_gain := v, volume := v\<rparr>"

definition set_loop :: "bool \<Rightarrow> Sound \<Rightarrow> Sound" where
  "set_loop l s = s\<lparr>source_loop := l\<rparr>"

definition set_speed :: "real \<Rightarrow> Sound \<Rightarrow> Sound" where
  "set_speed v s = s\<lparr>playbackRate := v\<rparr>"

definition log_event :: "event \<Rightarrow> Sound \<Rightarrow> Sound" where
  "log_event e s = s\<lparr>trace := trace s @ [e]\<rparr>"

definition enqueue :: "request \<Rightarrow> Sound \<Rightarrow> Sound" where
  "enqueue q s = s\<lparr>requests := requests s @ [q]\<rparr>"

subsection \<open>Sprites\<close>

text \<open>
  \<^verbatim>\<open>addSprites(alias, data)\<close>, the string form. \<^verbatim>\<open>console.assert\<close> writes its message to
  the console when the condition is false and returns; the code then goes on. The table
  holds the entries that \<^verbatim>\<open>addSprites\<close> has stored. The names that every object
  inherits (\<^verbatim>\<open>toString\<close>, \<^verbatim>\<open>constructor\<close> and the like), which \<^verbatim>\<open>this._sprites[alias]\<close>
  finds as well, are not in it: sprite names are taken to differ from them.
\<close>

definition addSprites :: "string \<Rightarrow> SoundSpriteData \<Rightarrow> Sound \<Rightarrow> SoundSprite \<times> Sound" where
  "addSprites alias data s =
     (let s1 = (if sprites s alias \<noteq> None
                then log_event (ConsoleAssert (''Alias '' @ alias @ '' is already taken'')) s
                else s);
          sprite = SoundSprite_new data
      in (sprite, s1\<lparr>sprites := (sprites s1)(alias \<mapsto> sprite)\<rparr>))"

text \<open>\<^verbatim>\<open>addSprites(map)\<close>, the object form: the entries in the order of \<^verbatim>\<open>for..in\<close>.\<close>

fun addSprites_map ::
  "(string \<times> SoundSpriteData) list \<Rightarrow> (string \<rightharpoonup> SoundSprite) \<Rightarrow> Sound
     \<Rightarrow> (string \<rightharpoonup> SoundSprite) \<times> Sound" where
  "addSprites_map [] results s = (results, s)"
| "addSprites_map ((alias, data) # rest) results s =
     (case addSprites alias data s of
        (sprite, s1) \<Rightarrow> addSprites_map rest (results(alias \<mapsto> sprite)) s1)"

subsection \<open>Promises and load callbacks\<close>

text \<open>A promise is settled at most once: \<^verbatim>\<open>resolve\<close> and \<^verbatim>\<open>reject\<close> on a settled one do nothing.\<close>

definition settle :: "nat \<Rightarrow> promise \<Rightarrow> Sound \<Rightarrow> Sound" where
  "settle p v s =
     (if p < length (promises s) \<and> promises s ! p = Pending
      then s\<lparr>promises := (promises s)[p := v]\<rparr> else s)"

text \<open>
  Calling a load callback with \<^verbatim>\<open>(err, sound, instance)\<close>. For the closure of \<^verbatim>\<open>play\<close>
  (Sound.ts lines 619 to 633): an error rejects; otherwise \<^verbatim>\<open>options.loaded\<close> is called
  when present and the promise is resolved with the instance.
\<close>

definition call_loaded ::
  "loaded_callback \<Rightarrow> js_error option \<Rightarrow> play_result option \<Rightarrow> Sound \<Rightarrow> Sound" where
  "call_loaded cb err inst s =
     (case cb of
        UserLoaded f \<Rightarrow> log_event (LoadedCalled f err inst) s
      | PlayDeferred p l \<Rightarrow>
          (case err of
             Some e \<Rightarrow> settle p (Rejected e) s
           | None \<Rightarrow>
               settle p (Resolved inst)
                 (case l of Some f \<Rightarrow> log_event (LoadedCalled f None inst) s | None \<Rightarrow> s)))"

subsection \<open>Preloading\<close>

text \<open>
  \<^verbatim>\<open>_decode\<close>, \<^verbatim>\<open>_loadUrl\<close> and \<^verbatim>\<open>_loadPath\<close> start an asynchronous operation and
  return: the request is recorded with the callback it will call. What happens when it
  completes is defined further down. \<^verbatim>\<open>_beginPreload\<close> is lines 727 to 747.
\<close>

definition decode :: "ArrayBuffer \<Rightarrow> loaded_callback option \<Rightarrow> Sound \<Rightarrow> Sound" where
  "decode arrayBuffer cb s = enqueue (DecodeAudio arrayBuffer cb) s"

definition loadUrl :: "loaded_callback option \<Rightarrow> Sound \<Rightarrow> Sound" where
  "loadUrl cb s = enqueue (XhrGet (case src s of Some u \<Rightarrow> u | None \<Rightarrow> ''null'') cb) s"

definition loadPath :: "loaded_callback option \<Rightarrow> Sound \<Rightarrow> Sound" where
  "loadPath cb s = enqueue (FsReadFile (case src s of Some u \<Rightarrow> u | None \<Rightarrow> ''null'') cb) s"

definition beginPreload :: "loaded_callback option \<Rightarrow> Sound \<Rightarrow> Sound" where
  "beginPreload cb s =
     (if truthy_string (src s) then (if useXHR s then loadUrl cb s else loadPath cb s)
      else if srcBuffer s \<noteq> None then
        (case srcBuffer s of Some b \<Rightarrow> decode b cb s | None \<Rightarrow> s)
      else (case cb of
              Some c \<Rightarrow> call_loaded c (Some ConfigError) None s
            | None \<Rightarrow> log_event (ConsoleError ''sound.src or sound.srcBuffer must be set'') s))"

subsection \<open>Instances of the sound\<close>

text \<open>
  \<^verbatim>\<open>_removeInstances\<close> (lines 774 to 782) destroys the active instances from the last to
  the first and empties the list; \<^verbatim>\<open>_onComplete\<close> (lines 755 to 767) removes the first
  occurrence of the instance from the list, recomputes \<open>isPlaying\<close> and destroys the
  instance.
\<close>

definition destroy_instance :: "nat \<Rightarrow> Sound \<Rightarrow> Sound" where
  "destroy_instance i s =
     (if i < length (pool s)
      then s\<lparr>pool := (pool s)[i := SoundInstance_destroy (pool s ! i)]\<rparr> else s)"

definition removeInstances :: "Sound \<Rightarrow> Sound" where
  "removeInstances s = (fold destroy_instance (rev (instances s)) s)\<lparr>instances := []\<rparr>"

definition onComplete :: "nat \<Rightarrow> Sound \<Rightarrow> Sound" where
  "onComplete i s =
     (let s1 = s\<lparr>instances := remove1 i (instances s)\<rparr>;
          s2 = s1\<lparr>isPlaying := (instances s1 \<noteq> [])\<rparr>
      in destroy_instance i s2)"

text \<open>
  Modelled from the spec: when \<^verbatim>\<open>SoundInstance.stop\<close> (not under src/) fires its event,
  namely once, from any non-terminal state, which becomes Stopped. What the event runs is
  the stop listener that \<^verbatim>\<open>play\<close> registers (Sound.ts lines 654 to 656).
\<close>

definition instance_stop :: "nat \<Rightarrow> Sound \<Rightarrow> Sound" where
  "instance_stop i s =
     (if i < length (pool s) \<and> \<not> terminal (si_state (pool s ! i))
      then onComplete i (s\<lparr>pool := (pool s)[i := (pool s ! i)\<lparr>si_state := Stopped\<rparr>]\<rparr>)
      else s)"

text \<open>
  An instance loops when its own \<open>loop\<close> argument says so, and by the sound's setting
  when it has none (the documentation of \<^verbatim>\<open>options.loop\<close> at Sound.ts line 552).
\<close>

definition looping :: "SoundInstance \<Rightarrow> Sound \<Rightarrow> bool" where
  "looping inst s = (case si_loop inst of Some l \<Rightarrow> l | None \<Rightarrow> source_loop s)"

text \<open>
  Modelled from the spec: when a \<^verbatim>\<open>SoundInstance\<close> (not under src/) fires its end event,
  namely once, at the natural end of a playing instance that does not loop, which becomes
  Completed. What the event runs is the end listener that \<^verbatim>\<open>play\<close> registers (Sound.ts
  lines 647 to 653).
\<close>

definition instance_end :: "nat \<Rightarrow> Sound \<Rightarrow> Sound" where
  "instance_end i s =
     (if i < length (pool s) \<and> si_state (pool s ! i) = Playing \<and> \<not> looping (pool s ! i) s
      then
        (let s1 = s\<lparr>pool := (pool s)[i := (pool s ! i)\<lparr>si_state := Completed\<rparr>]\<rparr>;
             s2 = (case si_complete (pool s ! i) of
                     Some f \<Rightarrow> log_event (CompleteCalled f) s1 | None \<Rightarrow> s1)
         in onComplete i s2)
      else s)"

definition set_instance_paused :: "bool \<Rightarrow> nat \<Rightarrow> Sound \<Rightarrow> Sound" where
  "set_instance_paused p i s =
     (if i < length (pool s)
      then s\<lparr>pool := (pool s)[i := SoundInstance_set_paused p (pool s ! i)]\<rparr> else s)"

subsection \<open>play\<close>

text \<open>
  \<^verbatim>\<open>play(source, complete)\<close> (lines 564 to 667) takes a sprite name, a complete callback
  or an options object, fills in the defaults, resolves the sprite and the offset, and
  then either returns a promise (sound not loaded) or creates an instance.
\<close>

datatype play_source =
    PlayAlias string
  | PlayCallback callback
  | PlayOpts "PlayOptions option"

definition play_arguments :: "play_source \<Rightarrow> callback option \<Rightarrow> PlayOptions option" where
  "play_arguments source on_complete =
     (case source of
        PlayAlias sprite \<Rightarrow> Some (no_play_options\<lparr>po_sprite := Some sprite, po_complete := on_complete\<rparr>)
      | PlayCallback f \<Rightarrow> Some (no_play_options\<lparr>po_complete := Some f\<rparr>)
      | PlayOpts opts \<Rightarrow> opts)"

text \<open>
  \<^verbatim>\<open>Object.assign\<close> over the defaults (lines 583 to 590). An option is either absent
  (\<open>None\<close>) or has a value; an option passed with the explicit value \<^verbatim>\<open>undefined\<close>, which
  \<^verbatim>\<open>Object.assign\<close> would copy over the default, is not told apart from an absent one.
\<close>

definition default_number :: "real \<Rightarrow> real option \<Rightarrow> real option" where
  "default_number d v = (case v of None \<Rightarrow> Some d | Some x \<Rightarrow> Some x)"

definition play_defaults :: "PlayOptions option \<Rightarrow> PlayOptions" where
  "play_defaults opts =
     (let options = (case opts of None \<Rightarrow> no_play_options | Some x \<Rightarrow> x)
      in options\<lparr>po_start := default_number 0 (po_start options),
                 po_fadeIn := default_number 0 (po_fadeIn options),
                 po_fadeOut := default_number 0 (po_fadeOut options)\<rparr>)"

text \<open>
  Lines 592 to 609: a truthy \<open>sprite\<close> option takes start, end and speed from the table
  (reading \<^verbatim>\<open>sprite.start\<close> of a missing entry throws; as in \<open>addSprites\<close>, the name is
  taken to differ from the names every object inherits), then a truthy \<open>offset\<close> replaces
  start.
\<close>

definition play_sprite :: "Sound \<Rightarrow> PlayOptions \<Rightarrow> js_error + PlayOptions" where
  "play_sprite s options =
     (if truthy_string (po_sprite options) then
        (case po_sprite options of
           None \<Rightarrow> Inr options
         | Some alias \<Rightarrow>
             (case sprites s alias of
                None \<Rightarrow> Inl TypeError
              | Some sprite \<Rightarrow>
                  Inr (options\<lparr>po_start := Some (start sprite), po_end := Some (end_time sprite),
                              po_speed := speed sprite, po_sprite := None\<rparr>)))
      else Inr options)"

definition play_offset :: "PlayOptions \<Rightarrow> PlayOptions" where
  "play_offset options =
     (if truthy_number (po_offset options) then options\<lparr>po_start := po_offset options\<rparr>
      else options)"

definition play_options :: "Sound \<Rightarrow> play_source \<Rightarrow> callback option \<Rightarrow> js_error + PlayOptions" where
  "play_options s source on_complete =
     (case play_sprite s (play_defaults (play_arguments source on_complete)) of
        Inl e \<Rightarrow> Inl e
      | Inr options \<Rightarrow> Inr (play_offset options))"

definition play_deferred :: "PlayOptions \<Rightarrow> Sound \<Rightarrow> play_result \<times> Sound" where
  "play_deferred options s =
     (let p = length (promises s);
          s1 = s\<lparr>promises := promises s @ [Pending]\<rparr>;
          s2 = s1\<lparr>autoPlay := True, autoPlayOptions := Some options\<rparr>
      in (Deferred p, beginPreload (Some (PlayDeferred p (po_loaded options))) s2))"

definition play_instance :: "PlayOptions \<Rightarrow> Sound \<Rightarrow> play_result \<times> Sound" where
  "play_instance options s =
     (let s1 = (if singleInstance s then removeInstances s else s);
          i = length (pool s1);
          created = SoundInstance_create\<lparr>si_complete := po_complete options\<rparr>;
          s2 = s1\<lparr>pool := pool s1 @ [created], instances := instances s1 @ [i],
                  isPlaying := True\<rparr>;
          playing = SoundInstance_play (po_start options) (po_end options) (po_speed options)
                      (po_loop options) (po_fadeIn options) (po_fadeOut options) created
      in (Instance i, s2\<lparr>pool := (pool s2)[i := playing]\<rparr>))"

definition play :: "play_source \<Rightarrow> callback option \<Rightarrow> Sound \<Rightarrow> js_error + play_result \<times> Sound" where
  "play source on_complete s =
     (case play_options s source on_complete of
        Inl e \<Rightarrow> Inl e
      | Inr options \<Rightarrow>
          if \<not> isLoaded s then Inr (play_deferred options s)
          else Inr (play_instance options s))"

subsection \<open>stop, pause, resume\<close>

text \<open>
  The loop of \<^verbatim>\<open>stop\<close> runs the index down from \<open>length - 1\<close> while the stop listeners
  shorten the list; \<^verbatim>\<open>_instances[i].stop()\<close> on a missing element throws.
\<close>

fun stop_from :: "nat \<Rightarrow> Sound \<Rightarrow> js_error + Sound" where
  "stop_from 0 s = Inr s"
| "stop_from (Suc i) s =
     (if i < length (instances s) then stop_from i (instance_stop (instances s ! i) s)
      else Inl TypeError)"

definition stop :: "Sound \<Rightarrow> js_error + Sound" where
  "stop s =
     (if \<not> isPlayable s then Inr (s\<lparr>autoPlay := False, autoPlayOptions := None\<rparr>)
      else stop_from (length (instances s)) (s\<lparr>isPlaying := False\<rparr>))"

definition pause :: "Sound \<Rightarrow> Sound" where
  "pause s = (fold (set_instance_paused True) (rev (instances s)) s)\<lparr>isPlaying := False\<rparr>"

definition resume :: "Sound \<Rightarrow> Sound" where
  "resume s =
     (let s1 = fold (set_instance_paused False) (rev (instances s)) s
      in s1\<lparr>isPlaying := (instances s1 \<noteq> [])\<rparr>)"

subsection \<open>Completion of the asynchronous requests\<close>

text \<open>
  The callback given to \<^verbatim>\<open>SoundContext.decode\<close> by \<^verbatim>\<open>_decode\<close> (lines 846 to 869); the
  context calls it with \<^verbatim>\<open>new Error('Unable to decode file')\<close> or with the buffer
  (part_002 lines 171 to 181). An exception thrown inside it is not caught by the sound.
\<close>

definition decode_callback :: "loaded_callback option \<Rightarrow> AudioBuffer option \<Rightarrow> Sound \<Rightarrow> Sound" where
  "decode_callback cb result s =
     (case result of
        None \<Rightarrow> (case cb of Some c \<Rightarrow> call_loaded c (Some DecodeError) None s | None \<Rightarrow> s)
      | Some b \<Rightarrow>
          (let s1 = s\<lparr>isLoaded := True, buffer := Some b\<rparr>
           in if autoPlay s1 then
                (case play (PlayOpts (autoPlayOptions s1)) None s1 of
                   Inl e \<Rightarrow> log_event (Uncaught e) s1
                 | Inr (r, s2) \<Rightarrow>
                     (case cb of Some c \<Rightarrow> call_loaded c None (Some r) s2 | None \<Rightarrow> s2))
              else (case cb of Some c \<Rightarrow> call_loaded c None None s1 | None \<Rightarrow> s1)))"

definition drop_request :: "nat \<Rightarrow> Sound \<Rightarrow> Sound" where
  "drop_request i s = s\<lparr>requests := take i (requests s) @ drop (Suc i) (requests s)\<rparr>"

text \<open>
  The environment completes the request at position \<open>i\<close>: a decode with a buffer or
  with failure, an XMLHttpRequest with its response (\<^verbatim>\<open>onload\<close>; no error handler is
  installed), a file read with the data or with an error. \<open>None\<close>: there is no such
  request.
\<close>

definition decode_done :: "nat \<Rightarrow> AudioBuffer option \<Rightarrow> Sound \<Rightarrow> Sound option" where
  "decode_done i result s =
     (if i < length (requests s) then
        (case requests s ! i of
           DecodeAudio arrayBuffer cb \<Rightarrow> Some (decode_callback cb result (drop_request i s))
         | _ \<Rightarrow> None)
      else None)"

definition xhr_onload :: "nat \<Rightarrow> ArrayBuffer \<Rightarrow> Sound \<Rightarrow> Sound option" where
  "xhr_onload i response s =
     (if i < length (requests s) then
        (case requests s ! i of
           XhrGet url cb \<Rightarrow>
             Some (decode response cb ((drop_request i s)\<lparr>srcBuffer := Some response\<rparr>))
         | _ \<Rightarrow> None)
      else None)"

text \<open>
  \<^verbatim>\<open>_loadUrl\<close> (lines 789 to 804) sets \<^verbatim>\<open>onload\<close> only. When the XMLHttpRequest fails,
  no code of the sound runs: the request is gone and its callback is never called.
\<close>

definition xhr_onerror :: "nat \<Rightarrow> Sound \<Rightarrow> Sound option" where
  "xhr_onerror i s =
     (if i < length (requests s) then
        (case requests s ! i of
           XhrGet url cb \<Rightarrow> Some (drop_request i s)
         | _ \<Rightarrow> None)
      else None)"

definition readFile_done :: "nat \<Rightarrow> ArrayBuffer option \<Rightarrow> Sound \<Rightarrow> Sound option" where
  "readFile_done i result s =
     (if i < length (requests s) then
        (case requests s ! i of
           FsReadFile path cb \<Rightarrow>
             (let s1 = drop_request i s
              in case result of
                   None \<Rightarrow>
                     (let s2 = log_event (ConsoleError ''readFile error'') s1
                      in case cb of
                           Some c \<Rightarrow>
                             Some (call_loaded c
                               (Some (FileNotFound (case src s2 of Some u \<Rightarrow> u | None \<Rightarrow> ''null'')))
                               None s2)
                         | None \<Rightarrow> Some s2)
                 | Some data \<Rightarrow> Some (decode data cb (s1\<lparr>srcBuffer := Some data\<rparr>)))
         | _ \<Rightarrow> None)
      else None)"

subsection \<open>Constructor\<close>

datatype sound_source =
    SourceString string
  | SourceBuffer ArrayBuffer
  | SourceOptions Options

definition source_options :: "sound_source \<Rightarrow> Options" where
  "source_options source =
     (case source of
        SourceString u \<Rightarrow> no_options\<lparr>o_src := Some u\<rparr>
      | SourceBuffer b \<Rightarrow> no_options\<lparr>o_srcBuffer := Some b\<rparr>
      | SourceOptions opts \<Rightarrow> opts)"

text \<open>
  The constructor up to and including \<^verbatim>\<open>this.speed = options.speed\<close> (lines 254 to
  273), with the defaults of \<^verbatim>\<open>Object.assign\<close> written into each field: an option is
  either absent (\<open>None\<close>) or has a value, and an option passed as an explicit
  \<^verbatim>\<open>undefined\<close> is not told apart from an absent one. The context is used by the sound
  only as its decode service, which is the \<open>DecodeAudio\<close> request.
\<close>

definition Sound_fields :: "Options \<Rightarrow> Sound" where
  "Sound_fields options =
     (let auto = truthy_bool (o_autoPlay options)
      in set_speed (case o_speed options of None \<Rightarrow> 1 | Some v \<Rightarrow> v)
          (set_loop (truthy_bool (o_loop options))
            (set_volume (case o_volume options of None \<Rightarrow> 1 | Some v \<Rightarrow> v)
              \<lparr>isLoaded = False, isPlaying = False, autoPlay = auto,
               singleInstance = truthy_bool (o_singleInstance options),
               preload = (truthy_bool (o_preload options) \<or> auto),
               src = o_src options, srcBuffer = o_srcBuffer options,
               useXHR = (case o_useXHR options of None \<Rightarrow> True | Some b \<Rightarrow> b),
               block = False,
               autoPlayOptions =
                 (case o_complete options of
                    None \<Rightarrow> None
                  | Some f \<Rightarrow> Some (no_play_options\<lparr>po_complete := Some f\<rparr>)),
               volume = 0, sprites = Map.empty, nodes_gain = 1, source_loop = False,
               buffer = None, playbackRate = 1, instances = [], pool = [], requests = [],
               promises = [], trace = []\<rparr>)))"

text \<open>Lines 275 to 278: the sprites of the options are added to the empty table.\<close>

definition Sound_sprites :: "Options \<Rightarrow> Sound" where
  "Sound_sprites options =
     (case o_sprites options of
        None \<Rightarrow> Sound_fields options
      | Some m \<Rightarrow> snd (addSprites_map m Map.empty (Sound_fields options)))"

definition Sound_new :: "sound_source \<Rightarrow> Sound" where
  "Sound_new source =
     (let options = source_options source;
          s1 = Sound_sprites options
      in if preload s1 then beginPreload (map_option UserLoaded (o_loaded options)) s1
         else s1)"

subsection \<open>Runs of a sound\<close>

text \<open>
  What can happen to a sound after its construction: the calls of \<^verbatim>\<open>play\<close>, \<^verbatim>\<open>stop\<close>,
  \<^verbatim>\<open>pause\<close>, \<^verbatim>\<open>resume\<close> and \<^verbatim>\<open>addSprites\<close>, the assignments to \<^verbatim>\<open>volume\<close>, \<^verbatim>\<open>loop\<close>,
  \<^verbatim>\<open>speed\<close>, \<^verbatim>\<open>singleInstance\<close> and \<^verbatim>\<open>block\<close>, the calls on one of its instances by
  whoever holds it, and the completions that the environment delivers. A step is \<open>None\<close>
  when the call throws (the state is then as before) or when there is no such request.
  The states of a sound are those that a run reaches from \<open>Sound_new\<close>. Not among the
  steps are \<^verbatim>\<open>removeSprites\<close>, \<^verbatim>\<open>destroy\<close>, the setters of \<^verbatim>\<open>buffer\<close> and \<^verbatim>\<open>filters\<close>,
  and writes from outside to the fields that the sound maintains itself (\<^verbatim>\<open>isLoaded\<close>,
  \<^verbatim>\<open>isPlaying\<close>, \<^verbatim>\<open>autoPlay\<close>, \<^verbatim>\<open>preload\<close>, \<^verbatim>\<open>src\<close>, \<^verbatim>\<open>srcBuffer\<close>, \<^verbatim>\<open>useXHR\<close>).
\<close>

datatype action =
    DoPlay play_source "callback option"
  | DoStop
  | DoPause
  | DoResume
  | DoAddSprites string SoundSpriteData
  | DoSetVolume real
  | DoSetLoop bool
  | DoSetSpeed real
  | DoSetSingleInstance bool
  | DoSetBlock bool
  | DoInstanceStop nat
  | DoInstancePaused nat bool
  | OnInstanceEnd nat
  | OnDecode nat "AudioBuffer option"
  | OnXhrLoad nat ArrayBuffer
  | OnXhrError nat
  | OnReadFile nat "ArrayBuffer option"

fun step :: "action \<Rightarrow> Sound \<Rightarrow> Sound option" where
  "step (DoPlay source on_complete) s =
     (case play source on_complete s of Inl e \<Rightarrow> None | Inr (r, s1) \<Rightarrow> Some s1)"
| "step DoStop s = (case stop s of Inl e \<Rightarrow> None | Inr s1 \<Rightarrow> Some s1)"
| "step DoPause s = Some (pause s)"
| "step DoResume s = Some (resume s)"
| "step (DoAddSprites alias data) s = Some (snd (addSprites alias data s))"
| "step (DoSetVolume v) s = Some (set_volume v s)"
| "step (DoSetLoop l) s = Some (set_loop l s)"
| "step (DoSetSpeed v) s = Some (set_speed v s)"
| "step (DoSetSingleInstance b) s = Some (s\<lparr>singleInstance := b\<rparr>)"
| "step (DoSetBlock b) s = Some (s\<lparr>block := b\<rparr>)"
| "step (DoInstanceStop i) s = Some (instance_stop i s)"
| "step (DoInstancePaused i p) s = Some (set_instance_paused p i s)"
| "step (OnInstanceEnd i) s = Some (instance_end i s)"
| "step (OnDecode i result) s = decode_done i result s"
| "step (OnXhrLoad i response) s = xhr_onload i response s"
| "step (OnXhrError i) s = xhr_onerror i s"
| "step (OnReadFile i result) s = readFile_done i result s"

fun run :: "action list \<Rightarrow> Sound \<Rightarrow> Sound option" where
  "run [] s = Some s"
| "run (a # rest) s = (case step a s of None \<Rightarrow> None | Some s1 \<Rightarrow> run rest s1)"

text \<open>
  The deferred results that outstanding requests still have to settle: a request carries
  the deferred \<open>p\<close> when its callback is the closure of the \<open>play\<close> call that returned \<open>p\<close>.
\<close>

definition request_callback :: "request \<Rightarrow> loaded_callback option" where
  "request_callback q =
     (case q of XhrGet url cb \<Rightarrow> cb | FsReadFile path cb \<Rightarrow> cb | DecodeAudio b cb \<Rightarrow> cb)"

definition deferred_id :: "request \<Rightarrow> nat option" where
  "deferred_id q =
     (case request_callback q of Some (PlayDeferred p l) \<Rightarrow> Some p | _ \<Rightarrow> None)"

definition deferred_ids :: "request list \<Rightarrow> nat list" where
  "deferred_ids qs = List.map_filter deferred_id qs"

text \<open>
  The part of the state that loading reads and writes: the outstanding requests, the
  deferred results, and the autoplay flag with its options.
\<close>

definition load_part :: "Sound \<Rightarrow> request list \<times> promise list \<times> PlayOptions option \<times> bool" where
  "load_part s = (requests s, promises s, autoPlayOptions s, autoPlay s)"

text \<open>
  What holds of the deferred results in every state of a sound: no two outstanding
  requests carry the same deferred, a deferred that a request carries exists and is
  pending, and the pending autoplay options name no sprite (\<^verbatim>\<open>play\<close> deletes the name
  on line 603, before it stores the options on line 618).
\<close>

definition deferred_inv :: "Sound \<Rightarrow> bool" where
  "deferred_inv s =
     (distinct (deferred_ids (requests s)) \<and>
      list_all (\<lambda>p. p < length (promises s) \<and> promises s ! p = Pending)
        (deferred_ids (requests s)) \<and>
      (case autoPlayOptions s of
         None \<Rightarrow> True
       | Some opts \<Rightarrow> \<not> truthy_string (po_sprite opts)))"



text \<open>
  What holds in every state of a sound: the listed instances are live (each is listed
  once, exists and is not terminal), a loaded sound has its buffer, only a loaded sound has
  instances, and \<open>isPlaying\<close> is false when there are none.
\<close>

definition live_instances :: "Sound \<Rightarrow> bool" where
  "live_instances s =
     (distinct (instances s) \<and>
      list_all (\<lambda>i. i < length (pool s) \<and> \<not> terminal (si_state (pool s ! i))) (instances s))"

definition sound_inv :: "Sound \<Rightarrow> bool" where
  "sound_inv s =
     (live_instances s \<and> (isLoaded s \<longrightarrow> buffer s \<noteq> None) \<and>
      (instances s \<noteq> [] \<longrightarrow> isLoaded s) \<and> (isPlaying s \<longrightarrow> instances s \<noteq> []))"

subsection \<open>Sequences of calls and example sounds\<close>

text \<open>
  Sequential \<^verbatim>\<open>play\<close> calls with nothing in between, as in the tests of
  src/unnamed/part_000; each call is listed with its result and the state it leaves.
\<close>

fun play_all ::
  "(play_source \<times> callback option) list \<Rightarrow> Sound \<Rightarrow> js_error + (play_result \<times> Sound) list" where
  "play_all [] s = Inr []"
| "play_all ((source, on_complete) # calls) s =
     (case play source on_complete s of
        Inl e \<Rightarrow> Inl e
      | Inr (r, s1) \<Rightarrow>
          (case play_all calls s1 of
             Inl e \<Rightarrow> Inl e
           | Inr outs \<Rightarrow> Inr ((r, s1) # outs)))"

definition example_bytes :: ArrayBuffer where
  "example_bytes = [73, 68, 51]"

definition preloading_sound :: Sound where
  "preloading_sound =
     Sound_new (SourceOptions (no_options\<lparr>o_srcBuffer := Some example_bytes,
       o_preload := Some True\<rparr>))"

definition loaded_sound :: Sound where
  "loaded_sound =
     (case decode_done 0 (Some (AudioBuffer 3)) preloading_sound of
        Some s \<Rightarrow> s | None \<Rightarrow> preloading_sound)"

definition unconfigured_sound :: Sound where
  "unconfigured_sound = Sound_new (SourceOptions no_options)"

definition callback_sound :: Sound where
  "callback_sound =
     Sound_new (SourceOptions (no_options\<lparr>o_srcBuffer := Some example_bytes,
       o_preload := Some True, o_loaded := Some 7\<rparr>))"

definition example_sprite :: SoundSpriteData where
  "example_sprite = \<lparr>start = 1, end_time = 2, speed = None\<rparr>"

definition sprite_sound :: Sound where
  "sprite_sound =
     (let s = Sound_new (SourceOptions (no_options\<lparr>o_srcBuffer := Some example_bytes,
                o_preload := Some True, o_sprites := Some [(''x'', example_sprite)]\<rparr>))
      in case decode_done 0 (Some (AudioBuffer 3)) s of Some s1 \<Rightarrow> s1 | None \<Rightarrow> s)"

definition autoplay_source :: sound_source where
  "autoplay_source =
     SourceOptions (no_options\<lparr>o_autoPlay := Some True, o_srcBuffer := Some example_bytes\<rparr>)"

definition blocking_sound :: Sound where
  "blocking_sound = loaded_sound\<lparr>block := True\<rparr>"

definition four_plays :: "(play_source \<times> callback option) list" where
  "four_plays = replicate 4 (PlayOpts None, None)"

definition single_sound :: Sound where
  "single_sound = loaded_sound\<lparr>singleInstance := True\<rparr>"

definition offset_sprite_play :: play_source where
  "offset_sprite_play =
     PlayOpts (Some (no_play_options\<lparr>po_sprite := Some ''x'', po_start := Some 7,
       po_offset := Some 5\<rparr>))"

definition unnamed_sprite_sound :: Sound where
  "unnamed_sprite_sound = snd (addSprites [] example_sprite loaded_sound)"

definition playing_sound :: Sound where
  "playing_sound = snd (play_instance (play_defaults None) loaded_sound)"





definition fast_sprite :: SoundSpriteData where
  "fast_sprite = \<lparr>start = 3, end_time = 4, speed = Some 2\<rparr>"

definition fast_sprite_sound :: Sound where
  "fast_sprite_sound = snd (addSprites ''y'' fast_sprite sprite_sound)"

definition ambient_sprite_play :: "string \<Rightarrow> real option \<Rightarrow> play_source" where
  "ambient_sprite_play x off =
     PlayOpts (Some (no_play_options\<lparr>po_sprite := Some x, po_start := Some 7,
       po_end := Some 9, po_speed := Some 5, po_offset := off\<rparr>))"

definition silent_preload_sound :: Sound where
  "silent_preload_sound = Sound_new (SourceOptions (no_options\<lparr>o_preload := Some True\<rparr>))"

definition played_sound :: Sound where
  "played_sound =
     (case run [OnDecode 0 (Some (AudioBuffer 3)), DoPlay (PlayOpts None) None]
             (Sound_new (SourceOptions (no_options\<lparr>o_srcBuffer := Some example_bytes,
                o_preload := Some True\<rparr>))) of
        Some s \<Rightarrow> s | None \<Rightarrow> preloading_sound)"



section \<open>Properties\<close>

subsection \<open>Volume and mute\<close>

text \<open>
  C5. Setting the volume of a sound to \<open>v\<close> and reading it back gives \<open>v\<close> (for every
  \<open>v\<close>, so in particular on the interval from 0 to 1). On the context, setting
  \<open>muted\<close> to true puts the output gain to 0 and leaves the stored volume as it was;
  setting \<open>muted\<close> to false afterwards puts the output gain back to that stored volume.
\<close>

theorem volume_round_trip_and_mute:
  "get_volume (set_volume v s) = v \<and>
   ctx_gain (set_muted True c) = 0 \<and>
   get_context_volume (set_muted True c) = get_context_volume c \<and>
   get_muted (set_muted True c) \<and>
   ctx_gain (set_muted False (set_muted True c)) = get_context_volume c \<and>
   get_context_volume (set_muted False (set_muted True c)) = get_context_volume c"
  by (simp add: get_volume_def set_volume_def set_muted_def get_context_volume_def get_muted_def)

subsection \<open>Preload without a source\<close>

text \<open>
  C6, as amended. When the sound has neither a (non-empty) \<open>src\<close> nor a \<open>srcBuffer\<close>,
  \<open>beginPreload\<close> issues no request at all (no XMLHttpRequest, no file read, no decode),
  leaves the load state untouched, and reports the configuration error before it returns.
  Where the error goes depends on the callback: the load callback of the constructor is
  called with the error; the closure of \<open>play\<close> rejects its promise with it (the
  promise is pending then: \<open>play\<close> has just made it, and a settled promise stays as it
  is); with no callback the message is written to the console and nothing else happens,
  no callback is called and no promise is settled.
\<close>

theorem beginPreload_without_source:
  assumes "\<not> truthy_string (src s)" and "srcBuffer s = None"
  shows "requests (beginPreload cb s) = requests s \<and>
         isLoaded (beginPreload cb s) = isLoaded s \<and>
         buffer (beginPreload cb s) = buffer s \<and>
         (case cb of
            None \<Rightarrow>
              trace (beginPreload cb s) =
                trace s @ [ConsoleError ''sound.src or sound.srcBuffer must be set''] \<and>
              promises (beginPreload cb s) = promises s
          | Some (UserLoaded f) \<Rightarrow>
              trace (beginPreload cb s) = trace s @ [LoadedCalled f (Some ConfigError) None] \<and>
              promises (beginPreload cb s) = promises s
          | Some (PlayDeferred p l) \<Rightarrow>
              trace (beginPreload cb s) = trace s \<and>
              promises (beginPreload cb s) =
                (if p < length (promises s) \<and> promises s ! p = Pending
                 then (promises s)[p := Rejected ConfigError] else promises s))"
  using assms
  by (simp add: beginPreload_def call_loaded_def settle_def log_event_def
      split: option.split loaded_callback.split)

text \<open>
  C6 as stated fails when there is no callback: the sound constructed with \<open>preload\<close>,
  no source and no \<open>loaded\<close> option only writes the message to the console; the caller
  of the constructor gets no error.
\<close>

theorem beginPreload_without_source_counterexample:
  "src silent_preload_sound = None \<and> srcBuffer silent_preload_sound = None \<and>
   preload silent_preload_sound \<and>
   trace silent_preload_sound = [ConsoleError ''sound.src or sound.srcBuffer must be set''] \<and>
   promises silent_preload_sound = [] \<and> requests silent_preload_sound = []"
  by code_simp

theorem beginPreload_without_source_witness:
  "\<not> truthy_string (src unconfigured_sound) \<and> srcBuffer unconfigured_sound = None \<and>
   requests (beginPreload (Some (UserLoaded 7)) unconfigured_sound) = [] \<and>
   trace (beginPreload (Some (UserLoaded 7)) unconfigured_sound) =
     [LoadedCalled 7 (Some ConfigError) None] \<and>
   requests (beginPreload None unconfigured_sound) = [] \<and>
   trace (beginPreload None unconfigured_sound) =
     [ConsoleError ''sound.src or sound.srcBuffer must be set''] \<and>
   promises (beginPreload None unconfigured_sound) = [] \<and>
   requests (beginPreload (Some (PlayDeferred 0 None))
     (unconfigured_sound\<lparr>promises := [Pending]\<rparr>)) = [] \<and>
   promises (beginPreload (Some (PlayDeferred 0 None))
     (unconfigured_sound\<lparr>promises := [Pending]\<rparr>)) = [Rejected ConfigError]"
proof -
  have h1: "\<not> truthy_string (src unconfigured_sound)" by code_simp
  have h2: "srcBuffer unconfigured_sound = None" by code_simp
  have r: "requests unconfigured_sound = []" by code_simp
  have t: "trace unconfigured_sound = []" by code_simp
  have q: "promises unconfigured_sound = []" by code_simp
  have h1': "\<not> truthy_string (src (unconfigured_sound\<lparr>promises := [Pending]\<rparr>))"
    using h1 by simp
  have h2': "srcBuffer (unconfigured_sound\<lparr>promises := [Pending]\<rparr>) = None"
    using h2 by simp
  show ?thesis
    using h1 h2 beginPreload_without_source [OF h1 h2, of "Some (UserLoaded 7)"]
      beginPreload_without_source [OF h1 h2, of None]
      beginPreload_without_source [OF h1' h2', of "Some (PlayDeferred 0 None)"]
    by (simp add: r t q)
qed

subsection \<open>Decode failure\<close>

text \<open>
  C7. When the decode of a preload fails, the sound's load callback is called with the
  error as its error argument (the closure of \<open>play\<close> rejects its promise with it), and
  the sound is otherwise as before: \<open>isLoaded\<close> and the buffer are unchanged, so a sound
  that was not loaded stays not loaded, no instance is created, and the configured source
  is still there for another preload.
\<close>

theorem decode_failure_leaves_sound_unloaded:
  assumes "decode_done i None s = Some s'"
  shows "isLoaded s' = isLoaded s \<and> buffer s' = buffer s \<and>
         instances s' = instances s \<and> pool s' = pool s \<and>
         src s' = src s \<and> srcBuffer s' = srcBuffer s \<and>
         (\<exists>arrayBuffer cb. i < length (requests s) \<and> requests s ! i = DecodeAudio arrayBuffer cb \<and>
            (case cb of
               None \<Rightarrow> trace s' = trace s \<and> promises s' = promises s
             | Some (UserLoaded f) \<Rightarrow>
                 trace s' = trace s @ [LoadedCalled f (Some DecodeError) None]
             | Some (PlayDeferred p l) \<Rightarrow>
                 promises s' =
                   (if p < length (promises s) \<and> promises s ! p = Pending
                    then (promises s)[p := Rejected DecodeError] else promises s)))"
  using assms
  by (auto simp add: decode_done_def decode_callback_def drop_request_def call_loaded_def
      settle_def log_event_def split: if_splits request.splits option.splits loaded_callback.splits)

theorem decode_failure_leaves_sound_unloaded_witness:
  "decode_done 0 None callback_sound \<noteq> None \<and>
   \<not> isLoaded (the (decode_done 0 None callback_sound)) \<and>
   buffer (the (decode_done 0 None callback_sound)) = None \<and>
   trace (the (decode_done 0 None callback_sound)) = [LoadedCalled 7 (Some DecodeError) None]"
proof -
  have "decode_done 0 None callback_sound \<noteq> None" by code_simp
  then obtain s' where h: "decode_done 0 None callback_sound = Some s'" by blast
  have l: "\<not> isLoaded callback_sound" by code_simp
  have b: "buffer callback_sound = None" by code_simp
  have t: "trace callback_sound = []" by code_simp
  have q: "requests callback_sound ! 0 = DecodeAudio example_bytes (Some (UserLoaded 7))"
    by code_simp
  show ?thesis
    using decode_failure_leaves_sound_unloaded [OF h] by (auto simp add: h l b t q)
qed

subsection \<open>Sprites\<close>

text \<open>
  C8, as amended. Adding a sprite under a name that the table already holds writes the
  assertion message for that name to the console and then goes on: the call returns the
  new sprite and stores it under the name, so the sprite that was there is replaced, and
  never without the assertion message.
\<close>

theorem addSprites_taken_alias_is_asserted:
  assumes "sprites s alias = Some old"
  shows "trace (snd (addSprites alias data s)) =
           trace s @ [ConsoleAssert (''Alias '' @ alias @ '' is already taken'')] \<and>
         fst (addSprites alias data s) = SoundSprite_new data \<and>
         sprites (snd (addSprites alias data s)) = (sprites s)(alias \<mapsto> SoundSprite_new data)"
  using assms by (simp add: addSprites_def log_event_def Let_def)

text \<open>
  C8 as stated fails: the call does not fail. With the sprite \<open>x\<close> from 1 to 2 in the
  table, adding \<open>x\<close> from 3 to 4 returns the new sprite and the table then holds the new
  one under \<open>x\<close>.
\<close>

theorem addSprites_taken_alias_counterexample:
  "sprites sprite_sound ''x'' = Some example_sprite \<and>
   fst (addSprites ''x'' \<lparr>start = 3, end_time = 4, speed = None\<rparr> sprite_sound) =
     \<lparr>start = 3, end_time = 4, speed = None\<rparr> \<and>
   sprites (snd (addSprites ''x'' \<lparr>start = 3, end_time = 4, speed = None\<rparr> sprite_sound)) ''x'' =
     Some \<lparr>start = 3, end_time = 4, speed = None\<rparr> \<and>
   Some \<lparr>start = 3, end_time = 4, speed = None\<rparr> \<noteq> Some example_sprite"
  by code_simp

theorem addSprites_taken_alias_is_asserted_witness:
  "sprites sprite_sound ''x'' = Some example_sprite \<and>
   trace (snd (addSprites ''x'' \<lparr>start = 3, end_time = 4, speed = None\<rparr> sprite_sound)) =
     [ConsoleAssert ''Alias x is already taken'']"
proof -
  have h: "sprites sprite_sound ''x'' = Some example_sprite" by code_simp
  have t: "trace sprite_sound = []" by code_simp
  show ?thesis
    using h addSprites_taken_alias_is_asserted [OF h, of "\<lparr>start = 3, end_time = 4, speed = None\<rparr>"]
    by (simp add: t)
qed

lemma addSprites_free_alias_is_silent:
  "sprites s alias = None \<Longrightarrow> trace (snd (addSprites alias data s)) = trace s"
  by (simp add: addSprites_def Let_def)

subsection \<open>Constructor\<close>

lemma addSprites_fields:
  "preload (snd (addSprites a d s)) = preload s"
  "autoPlay (snd (addSprites a d s)) = autoPlay s"
  "src (snd (addSprites a d s)) = src s"
  "srcBuffer (snd (addSprites a d s)) = srcBuffer s"
  "useXHR (snd (addSprites a d s)) = useXHR s"
  "requests (snd (addSprites a d s)) = requests s"
  "instances (snd (addSprites a d s)) = instances s"
  by (simp_all add: addSprites_def log_event_def Let_def)

lemma addSprites_map_fields:
  "preload (snd (addSprites_map m r s)) = preload s \<and>
   autoPlay (snd (addSprites_map m r s)) = autoPlay s \<and>
   src (snd (addSprites_map m r s)) = src s \<and>
   srcBuffer (snd (addSprites_map m r s)) = srcBuffer s \<and>
   useXHR (snd (addSprites_map m r s)) = useXHR s \<and>
   requests (snd (addSprites_map m r s)) = requests s \<and>
   instances (snd (addSprites_map m r s)) = instances s"
proof (induction m arbitrary: r s)
  case Nil
  show ?case by simp
next
  case (Cons x m)
  obtain a d where x: "x = (a, d)" by (cases x)
  obtain sp s1 where step: "addSprites a d s = (sp, s1)" by (cases "addSprites a d s")
  have s1: "s1 = snd (addSprites a d s)" using step by simp
  have eq: "addSprites_map (x # m) r s = addSprites_map m (r(a \<mapsto> sp)) s1"
    by (simp add: x step)
  have f: "preload s1 = preload s" "autoPlay s1 = autoPlay s" "src s1 = src s"
    "srcBuffer s1 = srcBuffer s" "useXHR s1 = useXHR s" "requests s1 = requests s"
    "instances s1 = instances s"
    by (simp_all add: s1 addSprites_fields)
  show ?case unfolding eq using Cons.IH [of "r(a \<mapsto> sp)" s1] by (simp only: f)
qed

lemma beginPreload_flags:
  "preload (beginPreload cb s) = preload s" "autoPlay (beginPreload cb s) = autoPlay s"
  by (simp_all add: beginPreload_def loadUrl_def loadPath_def decode_def enqueue_def
      call_loaded_def settle_def log_event_def
      split: option.split loaded_callback.split)

lemma beginPreload_with_source:
  "truthy_string (src s) \<or> srcBuffer s \<noteq> None \<Longrightarrow>
   length (requests (beginPreload cb s)) = Suc (length (requests s))"
  by (auto simp add: beginPreload_def loadUrl_def loadPath_def decode_def enqueue_def)

lemma Sound_fields_simps:
  "preload (Sound_fields opts) = (truthy_bool (o_preload opts) \<or> truthy_bool (o_autoPlay opts))"
  "autoPlay (Sound_fields opts) = truthy_bool (o_autoPlay opts)"
  "src (Sound_fields opts) = o_src opts"
  "srcBuffer (Sound_fields opts) = o_srcBuffer opts"
  "useXHR (Sound_fields opts) = (case o_useXHR opts of None \<Rightarrow> True | Some b \<Rightarrow> b)"
  "requests (Sound_fields opts) = []"
  "instances (Sound_fields opts) = []"
  by (simp_all add: Sound_fields_def Let_def set_speed_def set_loop_def set_volume_def)

lemma Sound_sprites_fields:
  "preload (Sound_sprites opts) = (truthy_bool (o_preload opts) \<or> truthy_bool (o_autoPlay opts))"
  "autoPlay (Sound_sprites opts) = truthy_bool (o_autoPlay opts)"
  "src (Sound_sprites opts) = o_src opts"
  "srcBuffer (Sound_sprites opts) = o_srcBuffer opts"
  "useXHR (Sound_sprites opts) = (case o_useXHR opts of None \<Rightarrow> True | Some b \<Rightarrow> b)"
  "requests (Sound_sprites opts) = []"
  "instances (Sound_sprites opts) = []"
  by (simp_all add: Sound_sprites_def addSprites_map_fields Sound_fields_simps split: option.split)

text \<open>
  C10. After construction \<open>preload\<close> is the disjunction of the \<open>preload\<close> and the
  \<open>autoPlay\<close> option (each false when absent). With \<open>autoPlay\<close> true, \<open>preload\<close> is
  therefore true whatever the \<open>preload\<close> option says, and the constructor ends with the
  call of \<open>beginPreload\<close> with the \<open>loaded\<close> option as callback: when a source is
  configured its request is outstanding as soon as the constructor returns. With neither
  option no request is issued.
\<close>

theorem autoPlay_forces_preload:
  "preload (Sound_new source) =
     (truthy_bool (o_preload (source_options source)) \<or>
      truthy_bool (o_autoPlay (source_options source))) \<and>
   (truthy_bool (o_autoPlay (source_options source)) \<longrightarrow>
      preload (Sound_new source) \<and> autoPlay (Sound_new source) \<and>
      Sound_new source =
        beginPreload (map_option UserLoaded (o_loaded (source_options source)))
          (Sound_sprites (source_options source)) \<and>
      (truthy_string (o_src (source_options source)) \<or>
       o_srcBuffer (source_options source) \<noteq> None \<longrightarrow>
         length (requests (Sound_new source)) = 1)) \<and>
   (\<not> truthy_bool (o_preload (source_options source)) \<and>
    \<not> truthy_bool (o_autoPlay (source_options source)) \<longrightarrow>
      requests (Sound_new source) = [])"
  by (simp add: Sound_new_def Let_def Sound_sprites_fields beginPreload_flags
      beginPreload_with_source)

theorem autoPlay_forces_preload_witness:
  "truthy_bool (o_autoPlay (source_options autoplay_source)) \<and>
   \<not> truthy_bool (o_preload (source_options autoplay_source)) \<and>
   preload (Sound_new autoplay_source) \<and>
   requests (Sound_new autoplay_source) = [DecodeAudio example_bytes None]"
proof -
  have h: "truthy_bool (o_autoPlay (source_options autoplay_source))" by code_simp
  have p: "\<not> truthy_bool (o_preload (source_options autoplay_source))" by code_simp
  have q: "requests (Sound_new autoplay_source) = [DecodeAudio example_bytes None]"
    by code_simp
  have "preload (Sound_new autoplay_source)"
    using h autoPlay_forces_preload [of autoplay_source] by blast
  then show ?thesis using h p q by blast
qed

subsection \<open>Creating instances\<close>

lemma destroy_instance_fields:
  "instances (destroy_instance i s) = instances s"
  "isLoaded (destroy_instance i s) = isLoaded s"
  "isPlaying (destroy_instance i s) = isPlaying s"
  "singleInstance (destroy_instance i s) = singleInstance s"
  "block (destroy_instance i s) = block s"
  "buffer (destroy_instance i s) = buffer s"
  "promises (destroy_instance i s) = promises s"
  "length (pool (destroy_instance i s)) = length (pool s)"
  by (simp_all add: destroy_instance_def)

lemma destroy_instance_state:
  "j < length (pool s) \<Longrightarrow>
   si_state (pool (destroy_instance i s) ! j) = (if j = i then Destroyed else si_state (pool s ! j))"
  by (simp add: destroy_instance_def SoundInstance_destroy_def nth_list_update)

lemma fold_destroy_fields:
  "instances (fold destroy_instance xs s) = instances s \<and>
   isLoaded (fold destroy_instance xs s) = isLoaded s \<and>
   isPlaying (fold destroy_instance xs s) = isPlaying s \<and>
   singleInstance (fold destroy_instance xs s) = singleInstance s \<and>
   block (fold destroy_instance xs s) = block s \<and>
   buffer (fold destroy_instance xs s) = buffer s \<and>
   promises (fold destroy_instance xs s) = promises s \<and>
   length (pool (fold destroy_instance xs s)) = length (pool s)"
  by (induction xs arbitrary: s) (simp_all add: destroy_instance_fields)

lemma fold_destroy_state:
  "j < length (pool s) \<Longrightarrow>
   si_state (pool (fold destroy_instance xs s) ! j) =
     (if j \<in> set xs then Destroyed else si_state (pool s ! j))"
proof (induction xs arbitrary: s)
  case Nil
  show ?case by simp
next
  case (Cons x xs)
  have len: "j < length (pool (destroy_instance x s))"
    using Cons.prems by (simp add: destroy_instance_fields)
  show ?case
    using Cons.IH [OF len] Cons.prems by (simp add: destroy_instance_state)
qed

lemma removeInstances_fields:
  "instances (removeInstances s) = []"
  "isLoaded (removeInstances s) = isLoaded s"
  "singleInstance (removeInstances s) = singleInstance s"
  "block (removeInstances s) = block s"
  "buffer (removeInstances s) = buffer s"
  "promises (removeInstances s) = promises s"
  "length (pool (removeInstances s)) = length (pool s)"
  by (simp_all add: removeInstances_def fold_destroy_fields)

lemma removeInstances_state:
  "j < length (pool s) \<Longrightarrow>
   si_state (pool (removeInstances s) ! j) =
     (if j \<in> set (instances s) then Destroyed else si_state (pool s ! j))"
  by (simp add: removeInstances_def fold_destroy_state)

lemma play_instance_result:
  "fst (play_instance options s) = Instance (length (pool s))"
  "instances (snd (play_instance options s)) =
     (if singleInstance s then [] else instances s) @ [length (pool s)]"
  "isPlaying (snd (play_instance options s))"
  "isLoaded (snd (play_instance options s)) = isLoaded s"
  "singleInstance (snd (play_instance options s)) = singleInstance s"
  "block (snd (play_instance options s)) = block s"
  "length (pool (snd (play_instance options s))) = Suc (length (pool s))"
  "buffer (snd (play_instance options s)) = buffer s"
  "promises (snd (play_instance options s)) = promises s"
  by (simp_all add: play_instance_def Let_def removeInstances_fields)

lemma play_instance_new:
  "pool (snd (play_instance options s)) ! length (pool s) =
     SoundInstance_play (po_start options) (po_end options) (po_speed options)
       (po_loop options) (po_fadeIn options) (po_fadeOut options)
       (SoundInstance_create\<lparr>si_complete := po_complete options\<rparr>)"
  by (simp add: play_instance_def Let_def removeInstances_fields nth_append)

lemma play_instance_old:
  "j < length (pool s) \<Longrightarrow>
   si_state (pool (snd (play_instance options s)) ! j) =
     (if singleInstance s \<and> j \<in> set (instances s) then Destroyed else si_state (pool s ! j))"
  by (simp add: play_instance_def Let_def removeInstances_fields removeInstances_state
      nth_append nth_list_update)

lemma play_loaded:
  assumes "isLoaded s" and "play source c s = Inr (r, s')"
  shows "\<exists>options. play_options s source c = Inr options \<and>
           r = fst (play_instance options s) \<and> s' = snd (play_instance options s)"
  using assms by (auto simp add: play_def split: sum.splits)

lemma play_all_step:
  assumes "isLoaded s" and "singleInstance s" and "play source c s = Inr (r, s1)"
  shows "r = Instance (length (pool s))" and "instances s1 = [length (pool s)]"
    and "isLoaded s1" and "singleInstance s1"
    and "length (pool s1) = Suc (length (pool s))"
    and "si_state (pool s1 ! length (pool s)) = Playing"
    and "\<And>j. j < length (pool s) \<Longrightarrow> j \<in> set (instances s) \<or> si_state (pool s ! j) = Destroyed
           \<Longrightarrow> si_state (pool s1 ! j) = Destroyed"
proof -
  obtain options where o: "r = fst (play_instance options s)" "s1 = snd (play_instance options s)"
    using play_loaded [OF assms(1,3)] by blast
  show "r = Instance (length (pool s))" by (simp add: o play_instance_result)
  show "instances s1 = [length (pool s)]" using assms(2) by (simp add: o play_instance_result)
  show "isLoaded s1" using assms(1) by (simp add: o play_instance_result)
  show "singleInstance s1" using assms(2) by (simp add: o play_instance_result)
  show "length (pool s1) = Suc (length (pool s))" by (simp add: o play_instance_result)
  show "si_state (pool s1 ! length (pool s)) = Playing"
    by (simp add: o play_instance_new SoundInstance_play_def)
  show "\<And>j. j < length (pool s) \<Longrightarrow> j \<in> set (instances s) \<or> si_state (pool s ! j) = Destroyed
           \<Longrightarrow> si_state (pool s1 ! j) = Destroyed"
    using assms(2) by (auto simp add: o play_instance_old)
qed

lemma singleInstance_sequence:
  assumes "isLoaded s" and "singleInstance s" and "play_all calls s = Inr outs"
  shows "length outs = length calls \<and>
         (\<forall>k < length outs.
            fst (outs ! k) = Instance (length (pool s) + k) \<and>
            instances (snd (outs ! k)) = [length (pool s) + k] \<and>
            length (pool (snd (outs ! k))) = Suc (length (pool s) + k) \<and>
            si_state (pool (snd (outs ! k)) ! (length (pool s) + k)) = Playing \<and>
            (\<forall>j < length (pool s) + k.
               j \<in> set (instances s) \<or> length (pool s) \<le> j \<or> si_state (pool s ! j) = Destroyed
                 \<longrightarrow> si_state (pool (snd (outs ! k)) ! j) = Destroyed))"
  using assms
proof (induction calls arbitrary: s outs)
  case Nil
  then show ?case by simp
next
  case (Cons call calls)
  obtain source c where call: "call = (source, c)" by (cases call)
  from Cons.prems(3) obtain r s1 rest where
    p: "play source c s = Inr (r, s1)" and rest: "play_all calls s1 = Inr rest"
    and outs: "outs = (r, s1) # rest"
    by (auto simp add: call split: sum.splits)
  note st = play_all_step [OF Cons.prems(1,2) p]
  note IH = Cons.IH [OF st(3) st(4) rest]
  have len: "length outs = length (call # calls)" using IH by (simp add: outs)
  have "fst (outs ! k) = Instance (length (pool s) + k) \<and>
        instances (snd (outs ! k)) = [length (pool s) + k] \<and>
        length (pool (snd (outs ! k))) = Suc (length (pool s) + k) \<and>
        si_state (pool (snd (outs ! k)) ! (length (pool s) + k)) = Playing \<and>
        (\<forall>j < length (pool s) + k.
           j \<in> set (instances s) \<or> length (pool s) \<le> j \<or> si_state (pool s ! j) = Destroyed
             \<longrightarrow> si_state (pool (snd (outs ! k)) ! j) = Destroyed)"
    if k: "k < length outs" for k
  proof (cases k)
    case 0
    show ?thesis using st by (auto simp add: 0 outs)
  next
    case (Suc k')
    have k': "k' < length rest" using k by (simp add: outs Suc)
    have ih: "fst (rest ! k') = Instance (length (pool s1) + k') \<and>
        instances (snd (rest ! k')) = [length (pool s1) + k'] \<and>
        length (pool (snd (rest ! k'))) = Suc (length (pool s1) + k') \<and>
        si_state (pool (snd (rest ! k')) ! (length (pool s1) + k')) = Playing \<and>
        (\<forall>j < length (pool s1) + k'.
           j \<in> set (instances s1) \<or> length (pool s1) \<le> j \<or> si_state (pool s1 ! j) = Destroyed
             \<longrightarrow> si_state (pool (snd (rest ! k')) ! j) = Destroyed)"
      using IH k' by blast
    have old: "si_state (pool (snd (rest ! k')) ! j) = Destroyed"
      if j: "j < length (pool s) + k"
        and c: "j \<in> set (instances s) \<or> length (pool s) \<le> j \<or> si_state (pool s ! j) = Destroyed"
      for j
    proof -
      have jb: "j < length (pool s1) + k'" using j by (simp add: st(5) Suc)
      have "j \<in> set (instances s1) \<or> length (pool s1) \<le> j \<or> si_state (pool s1 ! j) = Destroyed"
      proof (cases "j < length (pool s)")
        case True
        then show ?thesis using c st(7) [of j] by auto
      next
        case False
        then show ?thesis by (auto simp add: st(2) st(5))
      qed
      then show ?thesis using ih jb by blast
    qed
    show ?thesis using ih old by (simp add: outs Suc st(5))
  qed
  then show ?case using len by blast
qed

text \<open>
  C3. On a loaded sound with \<open>singleInstance\<close> set, every call of a sequence of \<open>play\<close>
  calls returns a new instance and leaves exactly that instance in the list of active
  instances, playing; every instance that was active before the call, and every instance
  an earlier call of the sequence created, has been destroyed (destroying also stops it).
  So the list never holds more than one instance after a call.
\<close>

theorem singleInstance_keeps_one:
  assumes "isLoaded s" and "singleInstance s" and "play_all calls s = Inr outs"
  shows "length outs = length calls \<and>
         (\<forall>k < length outs.
            fst (outs ! k) = Instance (length (pool s) + k) \<and>
            instances (snd (outs ! k)) = [length (pool s) + k] \<and>
            si_state (pool (snd (outs ! k)) ! (length (pool s) + k)) = Playing \<and>
            (\<forall>j < length (pool s) + k.
               j \<in> set (instances s) \<or> length (pool s) \<le> j
                 \<longrightarrow> si_state (pool (snd (outs ! k)) ! j) = Destroyed))"
  using singleInstance_sequence [OF assms] by blast

theorem singleInstance_keeps_one_witness:
  "isLoaded single_sound \<and> singleInstance single_sound \<and>
   \<not> isl (play_all four_plays single_sound) \<and>
   length (projr (play_all four_plays single_sound)) = 4 \<and>
   instances (snd (projr (play_all four_plays single_sound) ! 3)) = [3]"
proof -
  have h1: "isLoaded single_sound" by code_simp
  have h2: "singleInstance single_sound" by code_simp
  have r: "\<not> isl (play_all four_plays single_sound)" by code_simp
  then obtain outs where h3: "play_all four_plays single_sound = Inr outs"
    by (cases "play_all four_plays single_sound") auto
  have p: "length (pool single_sound) = 0" by code_simp
  have n: "length four_plays = 4" by (simp add: four_plays_def)
  from singleInstance_keeps_one [OF h1 h2 h3]
  have "length outs = 4" and "instances (snd (outs ! 3)) = [3]"
    by (simp_all add: n p)
  then show ?thesis using h1 h2 r by (simp add: h3)
qed

subsection \<open>Blocking\<close>

text \<open>
  C1. With blocking set, calls of \<open>play\<close> after the first are meant to return the
  first instance and to create nothing. \<^verbatim>\<open>Sound.play\<close> never reads the flag: on the loaded
  sound with \<open>block\<close> set and \<open>singleInstance\<close> unset, the four calls of the test
  "should play with blocking" return four different instances, and all four are active
  and playing afterwards, where the test expects one.
\<close>

theorem play_does_not_read_block:
  "isLoaded blocking_sound \<and> block blocking_sound \<and> \<not> singleInstance blocking_sound \<and>
   \<not> isl (play_all four_plays blocking_sound) \<and>
   map fst (projr (play_all four_plays blocking_sound)) =
     [Instance 0, Instance 1, Instance 2, Instance 3] \<and>
   instances (snd (last (projr (play_all four_plays blocking_sound)))) = [0, 1, 2, 3] \<and>
   map si_state (pool (snd (last (projr (play_all four_plays blocking_sound))))) =
     [Playing, Playing, Playing, Playing]"
  by code_simp

subsection \<open>Playing a sprite\<close>

lemma play_options_named:
  assumes "sprites s x = Some sprite"
      and "play_arguments source c = Some opts" and "po_sprite opts = Some x"
  shows "\<exists>options. play_options s source c = Inr options \<and>
           po_start options =
             (if truthy_number (po_offset opts) then po_offset opts
              else if x \<noteq> [] then Some (start sprite)
              else default_number 0 (po_start opts)) \<and>
           po_end options = (if x \<noteq> [] then Some (end_time sprite) else po_end opts) \<and>
           po_speed options = (if x \<noteq> [] then speed sprite else po_speed opts)"
  using assms
  by (simp add: play_options_def play_sprite_def play_defaults_def play_offset_def
      truthy_string_def)

text \<open>
  C9, as amended. On a loaded sound with a sprite stored under the name \<open>x\<close>, a \<open>play\<close> call
  whose options name the sprite \<open>x\<close> creates a playing instance. When \<open>x\<close> is not empty,
  the instance is started with the end and the speed of the sprite (no speed when the
  sprite has none), whatever end and speed the options carry, and with the start of the
  sprite unless the options carry a non-zero deprecated \<open>offset\<close>, which then is the start.
  When \<open>x\<close> is the empty name the sprite is not used: start, end and speed are those of
  the options (start 0 when absent, or the non-zero \<open>offset\<close>).
\<close>

theorem play_sprite_window:
  assumes "isLoaded s" and "sprites s x = Some sprite"
      and "play_arguments source c = Some opts" and "po_sprite opts = Some x"
  shows "\<exists>s'. play source c s = Inr (Instance (length (pool s)), s') \<and>
           last (instances s') = length (pool s) \<and>
           si_state (pool s' ! length (pool s)) = Playing \<and>
           si_start (pool s' ! length (pool s)) =
             (if truthy_number (po_offset opts) then po_offset opts
              else if x \<noteq> [] then Some (start sprite)
              else default_number 0 (po_start opts)) \<and>
           si_end (pool s' ! length (pool s)) =
             (if x \<noteq> [] then Some (end_time sprite) else po_end opts) \<and>
           si_speed (pool s' ! length (pool s)) =
             (if x \<noteq> [] then speed sprite else po_speed opts)"
proof -
  obtain options where o: "play_options s source c = Inr options"
    and w: "po_start options =
             (if truthy_number (po_offset opts) then po_offset opts
              else if x \<noteq> [] then Some (start sprite)
              else default_number 0 (po_start opts))"
      "po_end options = (if x \<noteq> [] then Some (end_time sprite) else po_end opts)"
      "po_speed options = (if x \<noteq> [] then speed sprite else po_speed opts)"
    using play_options_named [OF assms(2-4)] by blast
  have p: "play source c s = Inr (play_instance options s)"
    using assms(1) by (simp add: play_def o)
  have "play source c s = Inr (Instance (length (pool s)), snd (play_instance options s))"
    using play_instance_result(1) [of options s] by (simp add: p prod_eq_iff)
  moreover have "last (instances (snd (play_instance options s))) = length (pool s)"
    by (simp add: play_instance_result)
  moreover have "si_state (pool (snd (play_instance options s)) ! length (pool s)) = Playing"
    "si_start (pool (snd (play_instance options s)) ! length (pool s)) = po_start options"
    "si_end (pool (snd (play_instance options s)) ! length (pool s)) = po_end options"
    "si_speed (pool (snd (play_instance options s)) ! length (pool s)) = po_speed options"
    by (simp_all add: play_instance_new SoundInstance_play_def)
  ultimately show ?thesis using w by simp
qed

text \<open>
  C9 as stated fails in two ways. With the sprite \<open>x\<close> from 1 to 2 and the option
  \<open>offset\<close> 5, the instance starts at 5. A sprite stored under the empty name is never
  used: the empty string is falsy, and the instance gets the default start 0 and no end.
\<close>

theorem play_sprite_window_counterexample:
  "isLoaded sprite_sound \<and> sprites sprite_sound ''x'' = Some example_sprite \<and>
   fst (projr (play offset_sprite_play None sprite_sound)) = Instance 0 \<and>
   si_start (pool (snd (projr (play offset_sprite_play None sprite_sound))) ! 0) = Some 5 \<and>
   Some 5 \<noteq> Some (start example_sprite) \<and>
   isLoaded unnamed_sprite_sound \<and> sprites unnamed_sprite_sound [] = Some example_sprite \<and>
   fst (projr (play (PlayAlias []) None unnamed_sprite_sound)) = Instance 0 \<and>
   si_start (pool (snd (projr (play (PlayAlias []) None unnamed_sprite_sound))) ! 0) = Some 0 \<and>
   si_end (pool (snd (projr (play (PlayAlias []) None unnamed_sprite_sound))) ! 0) = None \<and>
   None \<noteq> Some (end_time example_sprite)"
  by code_simp

theorem play_sprite_window_witness:
  "isLoaded fast_sprite_sound \<and> sprites fast_sprite_sound ''y'' = Some fast_sprite \<and>
   fst (projr (play (ambient_sprite_play ''y'' None) None fast_sprite_sound)) = Instance 0 \<and>
   si_start (pool (snd (projr (play (ambient_sprite_play ''y'' None) None fast_sprite_sound))) ! 0)
     = Some 3 \<and>
   si_end (pool (snd (projr (play (ambient_sprite_play ''y'' None) None fast_sprite_sound))) ! 0)
     = Some 4 \<and>
   si_speed (pool (snd (projr (play (ambient_sprite_play ''y'' None) None fast_sprite_sound))) ! 0)
     = Some 2 \<and>
   si_start (pool (snd (projr (play (ambient_sprite_play ''y'' (Some 5)) None fast_sprite_sound))) ! 0)
     = Some 5 \<and>
   si_end (pool (snd (projr (play (ambient_sprite_play ''y'' (Some 5)) None fast_sprite_sound))) ! 0)
     = Some 4 \<and>
   isLoaded unnamed_sprite_sound \<and> sprites unnamed_sprite_sound [] = Some example_sprite \<and>
   si_start (pool (snd (projr (play (ambient_sprite_play [] None) None unnamed_sprite_sound))) ! 0)
     = Some 7 \<and>
   si_end (pool (snd (projr (play (ambient_sprite_play [] None) None unnamed_sprite_sound))) ! 0)
     = Some 9 \<and>
   si_speed (pool (snd (projr (play (ambient_sprite_play [] None) None unnamed_sprite_sound))) ! 0)
     = Some 5"
proof -
  have h1: "isLoaded fast_sprite_sound" by code_simp
  have h2: "sprites fast_sprite_sound ''y'' = Some fast_sprite" by code_simp
  have g1: "isLoaded unnamed_sprite_sound" by code_simp
  have g2: "sprites unnamed_sprite_sound [] = Some example_sprite" by code_simp
  have a: "play_arguments (ambient_sprite_play x off) None =
             Some (no_play_options\<lparr>po_sprite := Some x, po_start := Some 7,
               po_end := Some 9, po_speed := Some 5, po_offset := off\<rparr>)" for x off
    by (simp add: play_arguments_def ambient_sprite_play_def)
  have b: "po_sprite (no_play_options\<lparr>po_sprite := Some x, po_start := Some 7,
               po_end := Some 9, po_speed := Some 5, po_offset := off\<rparr>) = Some x" for x off
    by simp
  have p: "length (pool fast_sprite_sound) = 0" "length (pool unnamed_sprite_sound) = 0"
    by code_simp+
  note w1 = play_sprite_window [OF h1 h2 a b, of None]
  note w2 = play_sprite_window [OF h1 h2 a b, of "Some 5"]
  note w3 = play_sprite_window [OF g1 g2 a b, of None]
  from w1 obtain s1 where
    s1: "play (ambient_sprite_play ''y'' None) None fast_sprite_sound = Inr (Instance 0, s1)"
      "si_start (pool s1 ! 0) = Some 3" "si_end (pool s1 ! 0) = Some 4"
      "si_speed (pool s1 ! 0) = Some 2"
    by (auto simp add: p truthy_number_def fast_sprite_def)
  from w2 obtain s2 where
    s2: "play (ambient_sprite_play ''y'' (Some 5)) None fast_sprite_sound = Inr (Instance 0, s2)"
      "si_start (pool s2 ! 0) = Some 5" "si_end (pool s2 ! 0) = Some 4"
    by (auto simp add: p truthy_number_def fast_sprite_def)
  from w3 obtain s3 where
    s3: "play (ambient_sprite_play [] None) None unnamed_sprite_sound = Inr (Instance 0, s3)"
      "si_start (pool s3 ! 0) = Some 7" "si_end (pool s3 ! 0) = Some 9"
      "si_speed (pool s3 ! 0) = Some 5"
    by (auto simp add: p truthy_number_def default_number_def)
  show ?thesis using h1 h2 g1 g2 s1 s2 s3 by simp
qed

subsection \<open>isPlaying and the list of active instances\<close>

lemma live_instancesD:
  "live_instances s \<Longrightarrow> i \<in> set (instances s) \<Longrightarrow>
   i < length (pool s) \<and> \<not> terminal (si_state (pool s ! i))"
  by (simp add: live_instances_def list_all_iff)

lemma onComplete_fields:
  "instances (onComplete i s) = remove1 i (instances s)"
  "isPlaying (onComplete i s) = (remove1 i (instances s) \<noteq> [])"
  "length (pool (onComplete i s)) = length (pool s)"
  "isLoaded (onComplete i s) = isLoaded s"
  "buffer (onComplete i s) = buffer s"
  by (simp_all add: onComplete_def Let_def destroy_instance_fields destroy_instance_def)

lemma onComplete_state:
  "j < length (pool s) \<Longrightarrow>
   si_state (pool (onComplete i s) ! j) = (if j = i then Destroyed else si_state (pool s ! j))"
  by (simp add: onComplete_def Let_def destroy_instance_def SoundInstance_destroy_def
      nth_list_update)

lemma onComplete_tracks:
  "isPlaying (onComplete i s) = (instances (onComplete i s) \<noteq> [])"
  by (simp add: onComplete_fields)

lemma instance_stop_tracks:
  "isPlaying s = (instances s \<noteq> []) \<Longrightarrow>
   isPlaying (instance_stop i s) = (instances (instance_stop i s) \<noteq> [])"
  by (simp add: instance_stop_def onComplete_tracks)

lemma instance_end_tracks:
  "isPlaying s = (instances s \<noteq> []) \<Longrightarrow>
   isPlaying (instance_end i s) = (instances (instance_end i s) \<noteq> [])"
  by (simp add: instance_end_def Let_def onComplete_tracks)

lemma instance_stop_live:
  assumes "live_instances s" and "i \<in> set (instances s)"
  shows "instances (instance_stop i s) = remove1 i (instances s)"
    and "isPlaying (instance_stop i s) = (remove1 i (instances s) \<noteq> [])"
    and "live_instances (instance_stop i s)"
    and "isLoaded (instance_stop i s) = isLoaded s"
    and "buffer (instance_stop i s) = buffer s"
proof -
  have i: "i < length (pool s)" "\<not> terminal (si_state (pool s ! i))"
    using live_instancesD [OF assms] by simp_all
  define s1 where "s1 = s\<lparr>pool := (pool s)[i := (pool s ! i)\<lparr>si_state := Stopped\<rparr>]\<rparr>"
  have eq: "instance_stop i s = onComplete i s1"
    using i by (simp add: instance_stop_def s1_def)
  have f: "instances s1 = instances s" "length (pool s1) = length (pool s)"
    "isLoaded s1 = isLoaded s" "buffer s1 = buffer s"
    by (simp_all add: s1_def)
  show "instances (instance_stop i s) = remove1 i (instances s)"
    by (simp add: eq onComplete_fields f)
  show "isPlaying (instance_stop i s) = (remove1 i (instances s) \<noteq> [])"
    by (simp add: eq onComplete_fields f)
  show "isLoaded (instance_stop i s) = isLoaded s" by (simp add: eq onComplete_fields f)
  show "buffer (instance_stop i s) = buffer s" by (simp add: eq onComplete_fields f)
  have d: "distinct (instances s)" using assms(1) by (simp add: live_instances_def)
  have "j < length (pool s) \<and> \<not> terminal (si_state (pool (onComplete i s1) ! j))"
    if j: "j \<in> set (remove1 i (instances s))" for j
  proof -
    have ji: "j \<noteq> i" and jin: "j \<in> set (instances s)" using j d by auto
    have jl: "j < length (pool s)" "\<not> terminal (si_state (pool s ! j))"
      using live_instancesD [OF assms(1) jin] by simp_all
    have "si_state (pool (onComplete i s1) ! j) = si_state (pool s1 ! j)"
      using jl ji by (simp add: onComplete_state f)
    also have "\<dots> = si_state (pool s ! j)" using ji by (simp add: s1_def)
    finally show ?thesis using jl by simp
  qed
  then show "live_instances (instance_stop i s)"
    using d by (simp add: live_instances_def eq onComplete_fields f list_all_iff)
qed

lemma remove1_last_distinct:
  "distinct (ys @ [x]) \<Longrightarrow> remove1 x (ys @ [x]) = ys"
  by (simp add: remove1_append)

lemma stop_from_live:
  assumes "live_instances s" and "length (instances s) = n"
  shows "\<exists>s'. stop_from n s = Inr s' \<and> instances s' = [] \<and> live_instances s' \<and>
           isPlaying s' = (if n = 0 then isPlaying s else False) \<and>
           isLoaded s' = isLoaded s \<and> buffer s' = buffer s"
  using assms
proof (induction n arbitrary: s)
  case 0
  then show ?case by simp
next
  case (Suc n)
  obtain ys x where snoc: "instances s = ys @ [x]"
    using Suc.prems(2) by (cases "instances s" rule: rev_cases) auto
  have n: "length ys = n" using Suc.prems(2) by (simp add: snoc)
  have x: "instances s ! n = x" by (simp add: snoc n [symmetric])
  have xin: "x \<in> set (instances s)" by (simp add: snoc)
  have d: "distinct (ys @ [x])" using Suc.prems(1) by (simp add: live_instances_def snoc)
  note st = instance_stop_live [OF Suc.prems(1) xin]
  have rest: "instances (instance_stop x s) = ys"
    using st(1) remove1_last_distinct [OF d] by (simp add: snoc)
  have len: "length (instances (instance_stop x s)) = n" by (simp add: rest n)
  from Suc.IH [OF st(3) len] obtain s' where
    s': "stop_from n (instance_stop x s) = Inr s'" "instances s' = []" "live_instances s'"
      "isPlaying s' = (if n = 0 then isPlaying (instance_stop x s) else False)"
      "isLoaded s' = isLoaded (instance_stop x s)" "buffer s' = buffer (instance_stop x s)"
    by blast
  have "stop_from (Suc n) s = Inr s'"
    using Suc.prems(2) by (simp add: x s')
  moreover have "isPlaying s' = False"
    using s'(4) st(2) rest n by (cases "n = 0") (simp_all add: snoc)
  ultimately show ?case using s' st by simp
qed

lemma stop_live:
  assumes "live_instances s"
  shows "\<exists>s'. stop s = Inr s' \<and> live_instances s' \<and>
           (if isPlayable s then instances s' = [] \<and> \<not> isPlaying s'
            else instances s' = instances s \<and> isPlaying s' = isPlaying s)"
proof (cases "isPlayable s")
  case True
  have l: "live_instances (s\<lparr>isPlaying := False\<rparr>)"
    using assms by (simp add: live_instances_def)
  from stop_from_live [OF l, of "length (instances s)"] obtain s' where
    a: "stop_from (length (instances s)) (s\<lparr>isPlaying := False\<rparr>) = Inr s'"
      "instances s' = []" "live_instances s'"
      "isPlaying s' =
         (if length (instances s) = 0 then isPlaying (s\<lparr>isPlaying := False\<rparr>) else False)"
    by force
  have "\<not> isPlaying s'" using a(4) by (simp split: if_splits)
  then show ?thesis using True a by (simp add: stop_def)
next
  case False
  then show ?thesis using assms by (simp add: stop_def live_instances_def)
qed

lemma set_instance_paused_fields:
  "instances (set_instance_paused p i s) = instances s"
  "isPlaying (set_instance_paused p i s) = isPlaying s"
  "length (pool (set_instance_paused p i s)) = length (pool s)"
  by (simp_all add: set_instance_paused_def)

lemma set_instance_paused_terminal:
  "j < length (pool s) \<Longrightarrow>
   terminal (si_state (pool (set_instance_paused p i s) ! j)) = terminal (si_state (pool s ! j))"
  by (auto simp add: set_instance_paused_def SoundInstance_set_paused_def terminal_def
      nth_list_update)

lemma fold_paused_fields:
  "instances (fold (set_instance_paused p) xs s) = instances s \<and>
   isPlaying (fold (set_instance_paused p) xs s) = isPlaying s \<and>
   length (pool (fold (set_instance_paused p) xs s)) = length (pool s)"
  by (induction xs arbitrary: s) (simp_all add: set_instance_paused_fields)

lemma fold_paused_terminal:
  "j < length (pool s) \<Longrightarrow>
   terminal (si_state (pool (fold (set_instance_paused p) xs s) ! j)) =
     terminal (si_state (pool s ! j))"
proof (induction xs arbitrary: s)
  case Nil
  show ?case by simp
next
  case (Cons x xs)
  have "j < length (pool (set_instance_paused p x s))"
    using Cons.prems by (simp add: set_instance_paused_fields)
  from Cons.IH [OF this] show ?case
    using Cons.prems by (simp add: set_instance_paused_terminal)
qed

lemma pause_result:
  "instances (pause s) = instances s" "\<not> isPlaying (pause s)"
  "live_instances s \<Longrightarrow> live_instances (pause s)"
  by (simp_all add: pause_def fold_paused_fields live_instances_def list_all_iff
      fold_paused_terminal)

lemma resume_result:
  "instances (resume s) = instances s" "isPlaying (resume s) = (instances s \<noteq> [])"
  "live_instances s \<Longrightarrow> live_instances (resume s)"
  by (simp_all add: resume_def Let_def fold_paused_fields live_instances_def list_all_iff
      fold_paused_terminal)

lemma beginPreload_instances:
  "instances (beginPreload cb s) = instances s" "isPlaying (beginPreload cb s) = isPlaying s"
  "pool (beginPreload cb s) = pool s"
  by (simp_all add: beginPreload_def loadUrl_def loadPath_def decode_def enqueue_def
      call_loaded_def settle_def log_event_def
      split: option.split loaded_callback.split)

lemma play_deferred_instances:
  "instances (snd (play_deferred options s)) = instances s"
  "isPlaying (snd (play_deferred options s)) = isPlaying s"
  "pool (snd (play_deferred options s)) = pool s"
  by (simp_all add: play_deferred_def Let_def beginPreload_instances)

lemma play_tracks:
  assumes "isPlaying s = (instances s \<noteq> [])" and "play source c s = Inr (r, s')"
  shows "isPlaying s' = (instances s' \<noteq> [])"
proof -
  obtain options where o: "play_options s source c = Inr options"
    using assms(2) by (auto simp add: play_def split: sum.splits)
  show ?thesis
  proof (cases "isLoaded s")
    case True
    then have "s' = snd (play_instance options s)" using assms(2) by (simp add: play_def o)
    then show ?thesis by (simp add: play_instance_result)
  next
    case False
    then have "s' = snd (play_deferred options s)" using assms(2) by (simp add: play_def o)
    then show ?thesis using assms(1) by (simp add: play_deferred_instances)
  qed
qed

lemma play_live:
  assumes "live_instances s" and "play source c s = Inr (r, s')"
  shows "live_instances s'"
proof -
  obtain options where o: "play_options s source c = Inr options"
    using assms(2) by (auto simp add: play_def split: sum.splits)
  show ?thesis
  proof (cases "isLoaded s")
    case False
    then have "s' = snd (play_deferred options s)" using assms(2) by (simp add: play_def o)
    then show ?thesis using assms(1) by (simp add: live_instances_def play_deferred_instances)
  next
    case True
    then have s': "s' = snd (play_instance options s)" using assms(2) by (simp add: play_def o)
    have new: "si_state (pool s' ! length (pool s)) = Playing"
      by (simp add: s' play_instance_new SoundInstance_play_def)
    have old: "j < length (pool s) \<and> si_state (pool s' ! j) = si_state (pool s ! j) \<and>
               \<not> terminal (si_state (pool s ! j))"
      if "\<not> singleInstance s" "j \<in> set (instances s)" for j
      using that live_instancesD [OF assms(1), of j] by (simp add: s' play_instance_old)
    show ?thesis
    proof (cases "singleInstance s")
      case True
      then show ?thesis
        using new by (simp add: live_instances_def s' play_instance_result terminal_def)
    next
      case False
      have "distinct (instances s @ [length (pool s)])"
        using assms(1) old [OF False] by (auto simp add: live_instances_def)
      moreover have "j < Suc (length (pool s)) \<and> \<not> terminal (si_state (pool s' ! j))"
        if "j \<in> set (instances s)" for j
        using old [OF False that] by simp
      ultimately show ?thesis
        using False new
        by (simp add: live_instances_def s' play_instance_result terminal_def list_all_iff)
    qed
  qed
qed

lemma instance_end_live:
  assumes "live_instances s"
  shows "live_instances (instance_end i s)"
proof (cases "i < length (pool s) \<and> si_state (pool s ! i) = Playing \<and> \<not> looping (pool s ! i) s")
  case False
  then have "instance_end i s = s" unfolding instance_end_def by (simp only: if_False)
  then show ?thesis using assms by simp
next
  case True
  define s2 where "s2 =
    (case si_complete (pool s ! i) of
       Some f \<Rightarrow> log_event (CompleteCalled f)
                   (s\<lparr>pool := (pool s)[i := (pool s ! i)\<lparr>si_state := Completed\<rparr>]\<rparr>)
     | None \<Rightarrow> s\<lparr>pool := (pool s)[i := (pool s ! i)\<lparr>si_state := Completed\<rparr>]\<rparr>)"
  have eq: "instance_end i s = onComplete i s2"
    using True by (simp add: instance_end_def Let_def s2_def)
  have f: "instances s2 = instances s" "length (pool s2) = length (pool s)"
    "\<And>j. j \<noteq> i \<Longrightarrow> pool s2 ! j = pool s ! j"
    by (simp_all add: s2_def log_event_def split: option.split)
  have d: "distinct (instances s)" using assms by (simp add: live_instances_def)
  have "j < length (pool s) \<and> \<not> terminal (si_state (pool (onComplete i s2) ! j))"
    if j: "j \<in> set (remove1 i (instances s))" for j
  proof -
    have ji: "j \<noteq> i" and jin: "j \<in> set (instances s)" using j d by auto
    have jl: "j < length (pool s)" "\<not> terminal (si_state (pool s ! j))"
      using live_instancesD [OF assms jin] by simp_all
    show ?thesis using jl ji by (simp add: onComplete_state f)
  qed
  then show ?thesis
    using d by (simp add: live_instances_def eq onComplete_fields f list_all_iff)
qed

lemma Sound_new_live: "live_instances (Sound_new source)"
  by (simp add: live_instances_def Sound_new_def Let_def beginPreload_instances
      Sound_sprites_fields)

lemma sound_inv_same:
  assumes "instances s' = instances s" and "pool s' = pool s" and "isLoaded s' = isLoaded s"
      and "buffer s' = buffer s" and "isPlaying s' = isPlaying s"
  shows "sound_inv s' = sound_inv s"
  using assms by (simp add: sound_inv_def live_instances_def)

lemma call_loaded_play_part:
  "instances (call_loaded cb err inst s) = instances s"
  "pool (call_loaded cb err inst s) = pool s"
  "isLoaded (call_loaded cb err inst s) = isLoaded s"
  "buffer (call_loaded cb err inst s) = buffer s"
  "isPlaying (call_loaded cb err inst s) = isPlaying s"
  by (simp_all add: call_loaded_def settle_def log_event_def
      split: option.split loaded_callback.split)

lemma beginPreload_play_part:
  "instances (beginPreload cb s) = instances s"
  "pool (beginPreload cb s) = pool s"
  "isLoaded (beginPreload cb s) = isLoaded s"
  "buffer (beginPreload cb s) = buffer s"
  "isPlaying (beginPreload cb s) = isPlaying s"
  by (simp_all add: beginPreload_def loadUrl_def loadPath_def decode_def enqueue_def
      call_loaded_play_part log_event_def split: option.split)

lemma play_deferred_play_part:
  "instances (snd (play_deferred options s)) = instances s"
  "pool (snd (play_deferred options s)) = pool s"
  "isLoaded (snd (play_deferred options s)) = isLoaded s"
  "buffer (snd (play_deferred options s)) = buffer s"
  "isPlaying (snd (play_deferred options s)) = isPlaying s"
  by (simp_all add: play_deferred_def Let_def beginPreload_play_part)

lemma play_inv:
  assumes "sound_inv s" and "play source c s = Inr (r, s')"
  shows "sound_inv s'" and "isPlaying s' = (instances s' \<noteq> [])"
proof -
  obtain options where o: "play_options s source c = Inr options"
    using assms(2) by (auto simp add: play_def split: sum.splits)
  have live: "live_instances s'" using play_live [OF _ assms(2)] assms(1)
    by (simp add: sound_inv_def)
  show "sound_inv s'"
  proof (cases "isLoaded s")
    case True
    then have "s' = snd (play_instance options s)" using assms(2) by (simp add: play_def o)
    then show ?thesis using True assms(1) live
      by (simp add: sound_inv_def play_instance_result)
  next
    case False
    then have "s' = snd (play_deferred options s)" using assms(2) by (simp add: play_def o)
    then show ?thesis using assms(1) sound_inv_same [of s' s]
      by (simp add: play_deferred_play_part)
  qed
  show "isPlaying s' = (instances s' \<noteq> [])"
  proof (cases "isLoaded s")
    case True
    then have "s' = snd (play_instance options s)" using assms(2) by (simp add: play_def o)
    then show ?thesis by (simp add: play_instance_result)
  next
    case False
    then have s': "s' = snd (play_deferred options s)" using assms(2) by (simp add: play_def o)
    have "instances s = []" "\<not> isPlaying s" using False assms(1) by (auto simp add: sound_inv_def)
    then show ?thesis by (simp add: s' play_deferred_play_part)
  qed
qed

lemma stop_inv:
  assumes "sound_inv s"
  shows "\<exists>s'. stop s = Inr s' \<and> sound_inv s' \<and> instances s' = [] \<and> \<not> isPlaying s'"
proof (cases "isPlayable s")
  case True
  have l: "live_instances (s\<lparr>isPlaying := False\<rparr>)"
    using assms by (simp add: live_instances_def sound_inv_def)
  from stop_from_live [OF l, of "length (instances s)"] obtain s' where
    a: "stop_from (length (instances s)) (s\<lparr>isPlaying := False\<rparr>) = Inr s'"
      "instances s' = []" "live_instances s'"
      "isPlaying s' =
         (if length (instances s) = 0 then isPlaying (s\<lparr>isPlaying := False\<rparr>) else False)"
      "isLoaded s' = isLoaded s" "buffer s' = buffer s"
    by force
  have "\<not> isPlaying s'" using a(4) by (simp split: if_splits)
  then show ?thesis using True a assms by (simp add: stop_def sound_inv_def)
next
  case False
  then have e: "instances s = []" "\<not> isPlaying s"
    using assms by (auto simp add: sound_inv_def isPlayable_def)
  have "sound_inv (s\<lparr>autoPlay := False, autoPlayOptions := None\<rparr>)"
    using assms sound_inv_same [of "s\<lparr>autoPlay := False, autoPlayOptions := None\<rparr>" s] by simp
  then show ?thesis using False e by (simp add: stop_def)
qed

lemma fold_paused_more:
  "isLoaded (fold (set_instance_paused p) xs s) = isLoaded s \<and>
   buffer (fold (set_instance_paused p) xs s) = buffer s"
  by (induction xs arbitrary: s) (simp_all add: set_instance_paused_def)

lemma pause_inv: "sound_inv s \<Longrightarrow> sound_inv (pause s)"
  using pause_result [of s]
  by (simp add: sound_inv_def) (simp add: pause_def fold_paused_more)

lemma resume_inv: "sound_inv s \<Longrightarrow> sound_inv (resume s)"
  using resume_result [of s]
  by (simp add: sound_inv_def) (simp add: resume_def Let_def fold_paused_more)

lemma onComplete_live:
  assumes "live_instances s"
  shows "live_instances (onComplete i s)"
proof -
  have d: "distinct (instances s)" using assms by (simp add: live_instances_def)
  have "j < length (pool s) \<and> \<not> terminal (si_state (pool (onComplete i s) ! j))"
    if j: "j \<in> set (remove1 i (instances s))" for j
  proof -
    have ji: "j \<noteq> i" and jin: "j \<in> set (instances s)" using j d by auto
    have jl: "j < length (pool s)" "\<not> terminal (si_state (pool s ! j))"
      using live_instancesD [OF assms jin] by simp_all
    show ?thesis using jl ji by (simp add: onComplete_state)
  qed
  then show ?thesis using d by (simp add: live_instances_def onComplete_fields list_all_iff)
qed

lemma onComplete_marked_live:
  assumes "live_instances s"
  shows "live_instances (onComplete i (s\<lparr>pool := (pool s)[i := (pool s ! i)\<lparr>si_state := l\<rparr>]\<rparr>))"
proof -
  define s1 where "s1 = s\<lparr>pool := (pool s)[i := (pool s ! i)\<lparr>si_state := l\<rparr>]\<rparr>"
  have d: "distinct (instances s)" using assms by (simp add: live_instances_def)
  have f: "instances s1 = instances s" "length (pool s1) = length (pool s)"
    "\<And>j. j \<noteq> i \<Longrightarrow> pool s1 ! j = pool s ! j"
    by (simp_all add: s1_def)
  have "j < length (pool s) \<and> \<not> terminal (si_state (pool (onComplete i s1) ! j))"
    if j: "j \<in> set (remove1 i (instances s))" for j
  proof -
    have ji: "j \<noteq> i" and jin: "j \<in> set (instances s)" using j d by auto
    have jl: "j < length (pool s)" "\<not> terminal (si_state (pool s ! j))"
      using live_instancesD [OF assms jin] by simp_all
    show ?thesis using jl ji by (simp add: onComplete_state f)
  qed
  then show ?thesis
    using d by (simp add: live_instances_def onComplete_fields f list_all_iff s1_def [symmetric])
qed

lemma onComplete_inv:
  assumes "live_instances (onComplete i s1)" and "instances s1 = instances s"
      and "isLoaded s1 = isLoaded s" and "buffer s1 = buffer s" and "sound_inv s"
  shows "sound_inv (onComplete i s1)"
proof -
  have "remove1 i (instances s) \<noteq> [] \<Longrightarrow> instances s \<noteq> []" by auto
  then show ?thesis
    using assms by (auto simp add: sound_inv_def onComplete_fields)
qed

lemma instance_stop_inv: "sound_inv s \<Longrightarrow> sound_inv (instance_stop i s)"
  using onComplete_marked_live [of s i Stopped]
    onComplete_inv [of i "s\<lparr>pool := (pool s)[i := (pool s ! i)\<lparr>si_state := Stopped\<rparr>]\<rparr>" s]
  by (simp add: instance_stop_def sound_inv_def)

lemma instance_end_inv: "sound_inv s \<Longrightarrow> sound_inv (instance_end i s)"
  using instance_end_live [of s i]
  by (auto simp add: sound_inv_def instance_end_def Let_def onComplete_fields log_event_def
      split: option.splits)

lemma set_instance_paused_inv:
  assumes "sound_inv s"
  shows "sound_inv (set_instance_paused p i s)"
proof -
  have f: "isLoaded (set_instance_paused p i s) = isLoaded s"
    "buffer (set_instance_paused p i s) = buffer s"
    by (simp_all add: set_instance_paused_def)
  have "live_instances (set_instance_paused p i s)"
    using assms
    by (simp add: sound_inv_def live_instances_def list_all_iff set_instance_paused_fields
        set_instance_paused_terminal)
  then show ?thesis
    using assms by (simp add: sound_inv_def set_instance_paused_fields f)
qed

lemma decode_callback_inv:
  assumes "sound_inv s"
  shows "sound_inv (decode_callback cb result s)"
proof -
  have c: "sound_inv (call_loaded c e r t)" if "sound_inv t" for c e r t
    using that sound_inv_same [of "call_loaded c e r t" t] by (simp add: call_loaded_play_part)
  have l: "sound_inv (log_event e t)" if "sound_inv t" for e t
    using that sound_inv_same [of "log_event e t" t] by (simp add: log_event_def)
  show ?thesis
  proof (cases result)
    case None
    then show ?thesis
      using assms c by (simp add: decode_callback_def split: option.split)
  next
    case (Some b)
    define s1 where "s1 = s\<lparr>isLoaded := True, buffer := Some b\<rparr>"
    have i1: "sound_inv s1" using assms by (simp add: sound_inv_def s1_def live_instances_def)
    show ?thesis
    proof (cases "autoPlay s1")
      case False
      then show ?thesis using i1 c
        by (simp add: decode_callback_def Some s1_def [symmetric] split: option.split)
    next
      case True
      show ?thesis
      proof (cases "play (PlayOpts (autoPlayOptions s1)) None s1")
        case (Inl e)
        then show ?thesis using True i1 l
          by (simp add: decode_callback_def Some s1_def [symmetric] Let_def)
      next
        case (Inr x)
        obtain r s2 where x: "x = (r, s2)" by (cases x)
        have "sound_inv s2" using play_inv(1) [OF i1] Inr by (simp add: x)
        then show ?thesis using True Inr c
          by (simp add: decode_callback_def Some s1_def [symmetric] Let_def x split: option.split)
      qed
    qed
  qed
qed

lemma drop_request_inv: "sound_inv s \<Longrightarrow> sound_inv (drop_request i s)"
  using sound_inv_same [of "drop_request i s" s] by (simp add: drop_request_def)

lemma step_inv:
  assumes "sound_inv s" and "step a s = Some s'"
  shows "sound_inv s'"
proof (cases a)
  case (DoPlay source c)
  then show ?thesis using assms play_inv(1) [OF assms(1)]
    by (auto split: sum.splits)
next
  case DoStop
  then show ?thesis using assms stop_inv [OF assms(1)] by auto
next
  case DoPause
  then show ?thesis using assms pause_inv by auto
next
  case DoResume
  then show ?thesis using assms resume_inv by auto
next
  case (DoAddSprites name data)
  then show ?thesis using assms sound_inv_same [of s' s]
    by (auto simp add: addSprites_def Let_def log_event_def)
next
  case (DoSetVolume v)
  then show ?thesis using assms sound_inv_same [of s' s] by (auto simp add: set_volume_def)
next
  case (DoSetLoop l)
  then show ?thesis using assms sound_inv_same [of s' s] by (auto simp add: set_loop_def)
next
  case (DoSetSpeed v)
  then show ?thesis using assms sound_inv_same [of s' s] by (auto simp add: set_speed_def)
next
  case (DoSetSingleInstance b)
  then show ?thesis using assms sound_inv_same [of s' s] by auto
next
  case (DoSetBlock b)
  then show ?thesis using assms sound_inv_same [of s' s] by auto
next
  case (DoInstanceStop i)
  then show ?thesis using assms instance_stop_inv by auto
next
  case (DoInstancePaused i p)
  then show ?thesis using assms set_instance_paused_inv by auto
next
  case (OnInstanceEnd i)
  then show ?thesis using assms instance_end_inv by auto
next
  case (OnDecode i result)
  then show ?thesis using assms decode_callback_inv drop_request_inv
    by (auto simp add: decode_done_def split: if_splits request.splits)
next
  case (OnXhrLoad i response)
  then show ?thesis using assms sound_inv_same [of s' s]
    by (auto simp add: xhr_onload_def decode_def enqueue_def drop_request_def
        split: if_splits request.splits)
next
  case (OnXhrError i)
  then show ?thesis using assms drop_request_inv
    by (auto simp add: xhr_onerror_def split: if_splits request.splits)
next
  case (OnReadFile i result)
  then show ?thesis using assms sound_inv_same [of s' s]
    by (auto simp add: readFile_done_def decode_def enqueue_def drop_request_def Let_def
        log_event_def call_loaded_play_part split: if_splits request.splits option.splits)
qed

lemma run_inv: "sound_inv s \<Longrightarrow> run acts s = Some t \<Longrightarrow> sound_inv t"
proof (induction acts arbitrary: s)
  case Nil
  then show ?case by simp
next
  case (Cons a acts)
  then show ?case using step_inv by (auto split: option.splits)
qed

lemma addSprites_map_unloaded:
  "isLoaded (snd (addSprites_map m r s)) = isLoaded s \<and>
   isPlaying (snd (addSprites_map m r s)) = isPlaying s"
proof (induction m arbitrary: r s)
  case Nil
  show ?case by simp
next
  case (Cons x m)
  obtain a d where x: "x = (a, d)" by (cases x)
  obtain sp s1 where st: "addSprites a d s = (sp, s1)" by (cases "addSprites a d s")
  have "s1 = snd (addSprites a d s)" using st by simp
  then have s1: "isLoaded s1 = isLoaded s" "isPlaying s1 = isPlaying s"
    by (simp_all add: addSprites_def Let_def log_event_def)
  have eq: "addSprites_map (x # m) r s = addSprites_map m (r(a \<mapsto> sp)) s1"
    by (simp add: x st)
  show ?case unfolding eq using Cons.IH [of "r(a \<mapsto> sp)" s1] by (simp only: s1)
qed

lemma Sound_new_inv: "sound_inv (Sound_new source)"
proof -
  have f: "\<not> isLoaded (Sound_sprites opts)" "\<not> isPlaying (Sound_sprites opts)" for opts
    by (simp_all add: Sound_sprites_def addSprites_map_unloaded Sound_fields_def Let_def
        set_speed_def set_loop_def set_volume_def split: option.split)
  show ?thesis
    using Sound_new_live [of source]
    by (simp add: sound_inv_def Sound_new_def Let_def beginPreload_play_part f
        Sound_sprites_fields)
qed

lemma set_instance_paused_state:
  "j < length (pool s) \<Longrightarrow>
   si_state (pool (set_instance_paused True i s) ! j) =
     (if j = i \<and> si_state (pool s ! j) = Playing then Paused else si_state (pool s ! j))"
  by (auto simp add: set_instance_paused_def SoundInstance_set_paused_def nth_list_update)

lemma fold_paused_state:
  "j < length (pool s) \<Longrightarrow>
   si_state (pool (fold (set_instance_paused True) xs s) ! j) =
     (if j \<in> set xs \<and> si_state (pool s ! j) = Playing then Paused else si_state (pool s ! j))"
proof (induction xs arbitrary: s)
  case Nil
  show ?case by simp
next
  case (Cons x xs)
  have len: "j < length (pool (set_instance_paused True x s))"
    using Cons.prems by (simp add: set_instance_paused_fields)
  show ?case
    using Cons.IH [OF len] Cons.prems by (auto simp add: set_instance_paused_state)
qed

lemma pause_state:
  "j < length (pool s) \<Longrightarrow>
   si_state (pool (pause s) ! j) =
     (if j \<in> set (instances s) \<and> si_state (pool s ! j) = Playing then Paused
      else si_state (pool s ! j))"
  by (simp add: pause_def fold_paused_state)

lemma instance_end_cases:
  "instance_end i s = s \<or>
   isPlaying (instance_end i s) = (instances (instance_end i s) \<noteq> [])"
  by (simp add: instance_end_def Let_def onComplete_tracks)

lemma instance_stop_cases:
  "instance_stop i s = s \<or>
   isPlaying (instance_stop i s) = (instances (instance_stop i s) \<noteq> [])"
  by (simp add: instance_stop_def onComplete_tracks)

text \<open>
  C4, as amended. In every state that a sound reaches by a run of steps after its
  construction, \<open>isPlaying\<close> is true exactly when
  the list of active instances is non-empty after \<open>play\<close>, after \<open>stop\<close> (which always
  returns, with an empty list), after \<open>resume\<close>, and after an instance has been reaped,
  whether it ended or was stopped. \<open>pause\<close> is different: it sets \<open>isPlaying\<close> to false
  and leaves every instance in the list, the playing ones now paused; \<open>resume\<close> after
  \<open>pause\<close> makes \<open>isPlaying\<close> say again whether the list is non-empty.
\<close>

theorem isPlaying_tracks_instances:
  assumes "run acts (Sound_new source0) = Some s"
  shows "(\<forall>source c r s'. play source c s = Inr (r, s') \<longrightarrow>
            isPlaying s' = (instances s' \<noteq> [])) \<and>
         (\<exists>s'. stop s = Inr s' \<and> isPlaying s' = (instances s' \<noteq> []) \<and> instances s' = []) \<and>
         isPlaying (resume s) = (instances (resume s) \<noteq> []) \<and>
         instances (resume s) = instances s \<and>
         (\<forall>i. isPlaying (onComplete i s) = (instances (onComplete i s) \<noteq> [])) \<and>
         (\<forall>i. instance_end i s = s \<or>
            isPlaying (instance_end i s) = (instances (instance_end i s) \<noteq> [])) \<and>
         (\<forall>i. instance_stop i s = s \<or>
            isPlaying (instance_stop i s) = (instances (instance_stop i s) \<noteq> [])) \<and>
         (\<forall>i \<in> set (instances s).
            instances (instance_stop i s) = remove1 i (instances s) \<and>
            isPlaying (instance_stop i s) = (instances (instance_stop i s) \<noteq> [])) \<and>
         \<not> isPlaying (pause s) \<and> instances (pause s) = instances s \<and>
         (\<forall>i \<in> set (instances s).
            si_state (pool (pause s) ! i) =
              (if si_state (pool s ! i) = Playing then Paused else si_state (pool s ! i))) \<and>
         isPlaying (resume (pause s)) = (instances s \<noteq> []) \<and>
         instances (resume (pause s)) = instances s"
proof -
  have inv: "sound_inv s" using run_inv [OF Sound_new_inv assms] .
  then have live: "live_instances s" by (simp add: sound_inv_def)
  have p: "\<forall>source c r s'. play source c s = Inr (r, s') \<longrightarrow>
            isPlaying s' = (instances s' \<noteq> [])"
    using play_inv(2) [OF inv] by blast
  have st: "\<exists>s'. stop s = Inr s' \<and> isPlaying s' = (instances s' \<noteq> []) \<and> instances s' = []"
    using stop_inv [OF inv] by auto
  have ist: "\<forall>i \<in> set (instances s).
            instances (instance_stop i s) = remove1 i (instances s) \<and>
            isPlaying (instance_stop i s) = (instances (instance_stop i s) \<noteq> [])"
    using instance_stop_live(1,2) [OF live] by simp
  have ps: "\<forall>i \<in> set (instances s).
            si_state (pool (pause s) ! i) =
              (if si_state (pool s ! i) = Playing then Paused else si_state (pool s ! i))"
    using live_instancesD [OF live] by (simp add: pause_state)
  show ?thesis
    using p st ist ps instance_end_cases instance_stop_cases
    by (simp add: resume_result pause_result onComplete_tracks)
qed

text \<open>
  C4 as stated fails after \<open>pause\<close>: the sound that was loaded and then played once has
  \<open>isPlaying\<close> false after \<open>pause\<close> while the instance, now paused, is still in the list.
\<close>

theorem isPlaying_tracks_instances_counterexample:
  "isLoaded played_sound \<and> isPlaying played_sound \<and> instances played_sound = [0] \<and>
   \<not> isPlaying (pause played_sound) \<and> instances (pause played_sound) = [0] \<and>
   si_state (pool (pause played_sound) ! 0) = Paused"
  by code_simp

theorem isPlaying_tracks_instances_witness:
  "run [OnDecode 0 (Some (AudioBuffer 3)), DoPlay (PlayOpts None) None]
     (Sound_new (SourceOptions (no_options\<lparr>o_srcBuffer := Some example_bytes,
        o_preload := Some True\<rparr>))) \<noteq> None \<and>
   isPlaying played_sound \<and> instances played_sound = [0] \<and>
   \<not> isl (stop played_sound) \<and> instances (projr (stop played_sound)) = [] \<and>
   \<not> isPlaying (projr (stop played_sound)) \<and>
   \<not> isPlaying (pause played_sound) \<and> si_state (pool (pause played_sound) ! 0) = Paused \<and>
   isPlaying (resume (pause played_sound)) \<and> instances (resume (pause played_sound)) = [0] \<and>
   instances (instance_stop 0 played_sound) = [] \<and> \<not> isPlaying (instance_stop 0 played_sound)"
proof -
  have n: "run [OnDecode 0 (Some (AudioBuffer 3)), DoPlay (PlayOpts None) None]
     (Sound_new (SourceOptions (no_options\<lparr>o_srcBuffer := Some example_bytes,
        o_preload := Some True\<rparr>))) \<noteq> None"
    by code_simp
  then obtain s where r: "run [OnDecode 0 (Some (AudioBuffer 3)), DoPlay (PlayOpts None) None]
     (Sound_new (SourceOptions (no_options\<lparr>o_srcBuffer := Some example_bytes,
        o_preload := Some True\<rparr>))) = Some s"
    by blast
  have s: "played_sound = s" unfolding played_sound_def r by simp
  have i: "instances played_sound = [0]" by code_simp
  have pl: "isPlaying played_sound" by code_simp
  have ps: "si_state (pool played_sound ! 0) = Playing" by code_simp
  note t = isPlaying_tracks_instances [OF r, folded s]
  from t obtain s' where
    st: "stop played_sound = Inr s'" "isPlaying s' = (instances s' \<noteq> [])" "instances s' = []"
    by blast
  from t have
    pa: "\<not> isPlaying (pause played_sound)"
      "\<forall>i \<in> set (instances played_sound).
            si_state (pool (pause played_sound) ! i) =
              (if si_state (pool played_sound ! i) = Playing then Paused
               else si_state (pool played_sound ! i))"
      "isPlaying (resume (pause played_sound)) = (instances played_sound \<noteq> [])"
      "instances (resume (pause played_sound)) = instances played_sound"
    and ist: "\<forall>i \<in> set (instances played_sound).
            instances (instance_stop i played_sound) = remove1 i (instances played_sound) \<and>
            isPlaying (instance_stop i played_sound) =
              (instances (instance_stop i played_sound) \<noteq> [])"
    by blast+
  show ?thesis using n i pl ps st pa ist by simp
qed

subsection \<open>play before the sound is loaded\<close>


lemma play_options_sprites:
  "sprites s1 = sprites t \<Longrightarrow> play_options s1 source c = play_options t source c"
  by (simp add: play_options_def play_sprite_def split: option.split)






lemma deferred_inv_same:
  "load_part s' = load_part s \<Longrightarrow> deferred_inv s' = deferred_inv s"
  by (simp add: load_part_def deferred_inv_def)











































subsection \<open>The blocking flag is not read\<close>

text \<open>
  Whatever value \<open>block\<close> has, \<open>play\<close> returns the same result and leaves the same state
  (with that value of \<open>block\<close>): no branch of it depends on the flag.
\<close>

lemma destroy_instance_block:
  "destroy_instance i (s\<lparr>block := b\<rparr>) = (destroy_instance i s)\<lparr>block := b\<rparr>"
  by (simp add: destroy_instance_def)

lemma fold_destroy_block:
  "fold destroy_instance xs (s\<lparr>block := b\<rparr>) = (fold destroy_instance xs s)\<lparr>block := b\<rparr>"
  by (induction xs arbitrary: s) (simp_all add: destroy_instance_block)

lemma removeInstances_block:
  "removeInstances (s\<lparr>block := b\<rparr>) = (removeInstances s)\<lparr>block := b\<rparr>"
  by (simp add: removeInstances_def fold_destroy_block)

lemma play_instance_block:
  "play_instance options (s\<lparr>block := b\<rparr>) =
     (fst (play_instance options s), (snd (play_instance options s))\<lparr>block := b\<rparr>)"
  by (simp add: play_instance_def Let_def removeInstances_block)

lemma beginPreload_block:
  "beginPreload cb (s\<lparr>block := b\<rparr>) = (beginPreload cb s)\<lparr>block := b\<rparr>"
  by (simp add: beginPreload_def loadUrl_def loadPath_def decode_def enqueue_def
      call_loaded_def settle_def log_event_def split: option.split loaded_callback.split)

lemma play_deferred_block:
  "play_deferred options (s\<lparr>block := b\<rparr>) =
     (fst (play_deferred options s), (snd (play_deferred options s))\<lparr>block := b\<rparr>)"
proof -
  have "s\<lparr>block := b, promises := promises s @ [Pending], autoPlay := True,
           autoPlayOptions := Some options\<rparr> =
        s\<lparr>promises := promises s @ [Pending], autoPlay := True,
          autoPlayOptions := Some options\<rparr>\<lparr>block := b\<rparr>"
    by (cases s) simp
  then have "beginPreload cb (s\<lparr>block := b, promises := promises s @ [Pending], autoPlay := True,
           autoPlayOptions := Some options\<rparr>) =
        (beginPreload cb (s\<lparr>promises := promises s @ [Pending], autoPlay := True,
          autoPlayOptions := Some options\<rparr>))\<lparr>block := b\<rparr>" for cb
    by (simp only: beginPreload_block)
  then show ?thesis
    by (simp add: play_deferred_def Let_def)
qed

lemma play_block:
  "play source c (s\<lparr>block := b\<rparr>) =
     (case play source c s of Inl e \<Rightarrow> Inl e | Inr (r, s') \<Rightarrow> Inr (r, s'\<lparr>block := b\<rparr>))"
proof -
  have o: "play_options (s\<lparr>block := b\<rparr>) source c = play_options s source c"
    by (rule play_options_sprites) simp
  show ?thesis
    by (cases "play_options s source c")
      (simp_all add: play_def o play_instance_block play_deferred_block split_beta)
qed

end
